theory Spec2Isabelle
  imports Complex_Main "HOL-Library.AList"
begin

section \<open>Constants (defaults.ts)\<close>

definition STORAGE_KEY :: string where
  "STORAGE_KEY = ''loi25-consent''"

definition STORAGE_DATE_KEY :: string where
  "STORAGE_DATE_KEY = ''loi25-consent-date''"

definition DEFAULT_EXPIRY_DAYS :: int where
  "DEFAULT_EXPIRY_DAYS = 365"

definition DEFAULT_WAIT_FOR_UPDATE :: int where
  "DEFAULT_WAIT_FOR_UPDATE = 500"

section \<open>JavaScript values used by the code\<close>

text \<open>
  The type \<open>ConsentLevel\<close> of types.ts. A value read back from storage is only cast to
  this type (\<open>as ConsentLevel | null\<close>), so what the component holds in its state is an
  arbitrary string or null: \<open>string option\<close>.
\<close>

datatype ConsentLevel = All | Necessary

fun level_string :: "ConsentLevel \<Rightarrow> string" where
  "level_string All = ''all''"
| "level_string Necessary = ''necessary''"

text \<open>
  Numbers. The arithmetic of \<open>isExpired\<close> is on a parsed integer, the clock and the
  constant 86400000; it is modelled exactly, over the rationals, with \<open>NaN\<close> as a value
  of its own (every comparison with \<open>NaN\<close> is false). The rounding of IEEE doubles and
  the infinities are not modelled.
\<close>

datatype jsnum = NaN | Fin rat

fun js_sub :: "jsnum \<Rightarrow> jsnum \<Rightarrow> jsnum" where
  "js_sub (Fin a) (Fin b) = Fin (a - b)"
| "js_sub _ _ = NaN"

fun js_div :: "jsnum \<Rightarrow> rat \<Rightarrow> jsnum" where
  "js_div (Fin a) c = Fin (a / c)"
| "js_div NaN c = NaN"

fun js_gt :: "jsnum \<Rightarrow> jsnum \<Rightarrow> bool" where
  "js_gt (Fin a) (Fin b) = (a > b)"
| "js_gt _ _ = False"

fun js_le :: "jsnum \<Rightarrow> jsnum \<Rightarrow> bool" where
  "js_le (Fin a) (Fin b) = (a \<le> b)"
| "js_le _ _ = False"

text \<open>Truthiness of a string-or-null value: null and the empty string are falsy.\<close>

fun truthy :: "string option \<Rightarrow> bool" where
  "truthy None = False"
| "truthy (Some s) = (s \<noteq> [])"

subsection \<open>\<open>parseInt(d, 10)\<close> and \<open>Number.prototype.toString\<close> on integers\<close>

definition is_js_space :: "char \<Rightarrow> bool" where
  "is_js_space c = (c \<in> {CHR 0x09, CHR 0x0A, CHR 0x0B, CHR 0x0C, CHR 0x0D, CHR 0x20, CHR 0xA0})"

definition is_digit :: "char \<Rightarrow> bool" where
  "is_digit c = (48 \<le> (of_char c :: nat) \<and> (of_char c :: nat) \<le> 57)"

definition digit_val :: "char \<Rightarrow> nat" where
  "digit_val c = of_char c - 48"

definition digits_val :: "string \<Rightarrow> nat" where
  "digits_val ds = foldl (\<lambda>a c. a * 10 + digit_val c) 0 ds"

text \<open>
  \<open>parseInt\<close> with radix 10: leading white space is skipped, one sign is read, then the
  longest run of decimal digits; no digit at all gives \<open>NaN\<close>, and whatever follows the
  digits is ignored.
\<close>

definition parseInt :: "string \<Rightarrow> jsnum" where
  "parseInt s =
     (let t = dropWhile is_js_space s;
          neg = (t \<noteq> [] \<and> hd t = CHR ''-'');
          u = (if t \<noteq> [] \<and> (hd t = CHR ''-'' \<or> hd t = CHR ''+'') then tl t else t);
          ds = takeWhile is_digit u
      in if ds = [] then NaN
         else if neg then Fin (- of_nat (digits_val ds))
         else Fin (of_nat (digits_val ds)))"

definition digit_char :: "nat \<Rightarrow> char" where
  "digit_char n = ''0123456789'' ! (n mod 10)"

fun nat_string :: "nat \<Rightarrow> string" where
  "nat_string n = (if n < 10 then [digit_char n] else nat_string (n div 10) @ [digit_char (n mod 10)])"

declare nat_string.simps [simp del]

definition toString :: "int \<Rightarrow> string" where
  "toString i = (if i < 0 then CHR ''-'' # nat_string (nat (- i)) else nat_string (nat i))"

section \<open>The browser's localStorage\<close>

text \<open>
  The store is an association list of key/value entries. Two things make an operation
  throw: the storage object is not reachable at all (disabled storage, a non-browser
  context), in which case every operation throws, or a \<open>setItem\<close> would take the store
  over its quota, counted in characters of keys and values.
\<close>

datatype js_error = SecurityError | QuotaExceededError | TypeError

record storage =
  items :: "(string \<times> string) list"
  accessible :: bool
  quota :: nat

definition used :: "(string \<times> string) list \<Rightarrow> nat" where
  "used kvs = sum_list (map (\<lambda>(k, v). length k + length v) kvs)"

definition getItem :: "storage \<Rightarrow> string \<Rightarrow> js_error + string option" where
  "getItem st k = (if accessible st then Inr (map_of (items st) k) else Inl SecurityError)"

definition setItem :: "storage \<Rightarrow> string \<Rightarrow> string \<Rightarrow> js_error + storage" where
  "setItem st k v =
     (if \<not> accessible st then Inl SecurityError
      else let kvs = AList.update k v (items st)
           in if used kvs > quota st then Inl QuotaExceededError
              else Inr (st\<lparr>items := kvs\<rparr>))"

definition removeItem :: "storage \<Rightarrow> string \<Rightarrow> js_error + storage" where
  "removeItem st k =
     (if \<not> accessible st then Inl SecurityError
      else Inr (st\<lparr>items := AList.delete k (items st)\<rparr>))"

section \<open>Reading the store (CookieConsent.tsx)\<close>

text \<open>
  \<open>isExpired\<close>: the \<open>try\<close> block reads the timestamp entry; a missing or empty entry is
  expired, a storage error is expired; otherwise the age in days is compared with the
  expiry window. \<open>now\<close> is \<open>Date.now()\<close>; \<open>expiryDays\<close> is taken to be a
  finite number.
\<close>

definition isExpired :: "rat \<Rightarrow> int \<Rightarrow> storage \<Rightarrow> bool" where
  "isExpired expiryDays now st =
     (case getItem st STORAGE_DATE_KEY of
        Inl e \<Rightarrow> True
      | Inr None \<Rightarrow> True
      | Inr (Some d) \<Rightarrow>
          if d = [] then True
          else let age = js_div (js_sub (Fin (of_int now)) (parseInt d)) (1000 * 60 * 60 * 24)
               in js_gt age (Fin expiryDays))"

text \<open>
  \<open>getStoredConsent\<close> returns the level and the storage as it leaves it. Inside the
  \<open>try\<close> block a throwing operation leaves the storage as it was at that point and the
  function returns null.
\<close>

definition getStoredConsent :: "rat \<Rightarrow> int \<Rightarrow> storage \<Rightarrow> string option \<times> storage" where
  "getStoredConsent expiryDays now st =
     (case getItem st STORAGE_KEY of
        Inl e \<Rightarrow> (None, st)
      | Inr stored \<Rightarrow>
          if truthy stored \<and> \<not> isExpired expiryDays now st then (stored, st)
          else if truthy stored then
            (case removeItem st STORAGE_KEY of
               Inl e \<Rightarrow> (None, st)
             | Inr st1 \<Rightarrow>
                 (case removeItem st1 STORAGE_DATE_KEY of
                    Inl e \<Rightarrow> (None, st1)
                  | Inr st2 \<Rightarrow> (None, st2)))
          else (None, st))"

section \<open>Writing and clearing the store\<close>

text \<open>
  The \<open>try\<close> block shared by \<open>handleConsent\<close> (CookieConsent.tsx) and \<open>setConsent\<close>
  (use-consent.ts): two \<open>setItem\<close> calls, the first failure ends the block and is
  swallowed. \<open>now\<close> is \<open>Date.now()\<close>.
\<close>

definition store_consent :: "ConsentLevel \<Rightarrow> int \<Rightarrow> storage \<Rightarrow> storage" where
  "store_consent level now st =
     (case setItem st STORAGE_KEY (level_string level) of
        Inl e \<Rightarrow> st
      | Inr st1 \<Rightarrow>
          (case setItem st1 STORAGE_DATE_KEY (toString now) of
             Inl e \<Rightarrow> st1
           | Inr st2 \<Rightarrow> st2))"

text \<open>The \<open>try\<close> block shared by \<open>handleReconsent\<close> and \<open>resetConsent\<close>.\<close>

definition clear_consent :: "storage \<Rightarrow> storage" where
  "clear_consent st =
     (case removeItem st STORAGE_KEY of
        Inl e \<Rightarrow> st
      | Inr st1 \<Rightarrow>
          (case removeItem st1 STORAGE_DATE_KEY of
             Inl e \<Rightarrow> st1
           | Inr st2 \<Rightarrow> st2))"

section \<open>The page around the component\<close>

text \<open>
  Values passed to \<open>gtag\<close> and serialised by \<open>JSON.stringify\<close>. Numbers that reach
  these places (\<open>wait_for_update\<close>, \<open>expiry_days\<close>) are taken to be integers.
\<close>

datatype jv = JStr string | JNum int | JBool bool | JArr "jv list" | JObj "(string \<times> jv) list"

text \<open>
  \<open>window.gtag\<close> is either the function the component installs, which pushes its
  arguments on \<open>window.dataLayer\<close>, or one the host page defined. Host-supplied functions
  (\<open>gtag\<close>, \<open>onConsent\<close>) are taken to return normally.
\<close>

datatype gtag_fn = Component_gtag | Host_gtag

text \<open>What the page can observe of the component, in the order it happens.\<close>

datatype action =
    Gtag "jv list"
  | Callback ConsentLevel
  | Dispatched
  | Injected string
  | Reloaded
  | Uncaught js_error

text \<open>A \<open>script\<close> element found in the markup, and the element rebuilt from it.\<close>

record script_el =
  el_src :: string
  el_text :: string
  el_textContent :: string
  el_attributes :: "(string \<times> string) list"

record new_script =
  ns_src :: "string option"
  ns_textContent :: string
  ns_attributes :: "(string \<times> string) list"

record world =
  localStorage :: storage
  clock :: int
  dataLayer :: "jv list list option"
  gtag :: "gtag_fn option"
  head :: "new_script list"
  querySelectorAll_script :: "string \<Rightarrow> script_el list"
  trace :: "action list"

text \<open>
  A call \<open>gtag(args)\<close>. The function the component installs does
  \<open>window.dataLayer.push(arguments)\<close>: on a page where \<open>dataLayer\<close> is not defined
  that throws a TypeError, as does calling \<open>gtag\<close> where none is defined.
\<close>

definition call_gtag :: "jv list \<Rightarrow> world \<Rightarrow> js_error + world" where
  "call_gtag args w =
     (case gtag w of
        None \<Rightarrow> Inl TypeError
      | Some Host_gtag \<Rightarrow> Inr (w\<lparr>trace := trace w @ [Gtag args]\<rparr>)
      | Some Component_gtag \<Rightarrow>
          (case dataLayer w of
             None \<Rightarrow> Inl TypeError
           | Some l \<Rightarrow> Inr (w\<lparr>dataLayer := Some (l @ [args]), trace := trace w @ [Gtag args]\<rparr>)))"

text \<open>An error nothing catches ends the handler or effect that raised it.\<close>

definition uncaught :: "js_error \<Rightarrow> world \<Rightarrow> world" where
  "uncaught e w = w\<lparr>trace := trace w @ [Uncaught e]\<rparr>"

text \<open>
  The effect that installs the component's \<open>gtag\<close> creates \<open>window.dataLayer\<close> first,
  and nothing in the repository removes it: \<open>window_ok\<close> says that the queue of the
  component's function is there.
\<close>

definition window_ok :: "world \<Rightarrow> bool" where
  "window_ok w = (gtag w = Some Component_gtag \<longrightarrow> dataLayer w \<noteq> None)"

definition dispatchEvent :: "world \<Rightarrow> world" where
  "dispatchEvent w = w\<lparr>trace := trace w @ [Dispatched]\<rparr>"

section \<open>The hook (use-consent.ts)\<close>

definition getSnapshot :: "storage \<Rightarrow> string option" where
  "getSnapshot st = (case getItem st STORAGE_KEY of Inl e \<Rightarrow> None | Inr v \<Rightarrow> v)"

text \<open>
  The \<open>consent\<close> field of the hook's result in a browser (\<open>window\<close> defined);
  \<open>hasConsent\<close> is \<open>consent \<noteq> null\<close>. The hook's own \<open>isExpired\<close> is the same
  text as the component's.
\<close>

definition useConsent :: "rat \<Rightarrow> int \<Rightarrow> storage \<Rightarrow> string option" where
  "useConsent expiryDays now st =
     (let raw = getSnapshot st;
          isValid = (if \<not> truthy raw then False else \<not> isExpired expiryDays now st)
      in if isValid then raw else None)"

definition hasConsent :: "rat \<Rightarrow> int \<Rightarrow> storage \<Rightarrow> bool" where
  "hasConsent expiryDays now st = (useConsent expiryDays now st \<noteq> None)"

definition resetConsent :: "world \<Rightarrow> world" where
  "resetConsent w = dispatchEvent (w\<lparr>localStorage := clear_consent (localStorage w)\<rparr>)"

definition setConsent :: "ConsentLevel \<Rightarrow> world \<Rightarrow> world" where
  "setConsent level w =
     dispatchEvent (w\<lparr>localStorage := store_consent level (clock w) (localStorage w)\<rparr>)"

section \<open>The component (CookieConsent.tsx)\<close>

text \<open>
  The props that decide behaviour; language, texts and styling are left out. \<open>onConsent\<close>
  says whether the host supplied the callback (each call is recorded in the trace). The
  props of a mounted component do not change.
\<close>

record props =
  expiryDays :: rat
  showReconsent :: bool
  onConsent :: bool
  consentMode :: bool
  adsDataRedaction :: bool
  urlPassthrough :: bool
  consentModeRegion :: "string list option"
  waitForUpdate :: int
  scripts :: string
  reloadOnConsent :: bool

text \<open>
  The four \<open>useState\<close> cells, the two \<open>useRef\<close> cells, and the pending \<open>setTimeout\<close>
  callbacks of \<open>handleConsent\<close> (each remembers its \<open>level\<close>).
\<close>

record component =
  mounted :: bool
  showBanner :: bool
  isVisible :: bool
  consent :: "string option"
  scriptsInjectedRef :: bool
  consentModeInitRef :: bool
  timers :: "ConsentLevel list"

definition initial_component :: component where
  "initial_component =
     \<lparr>mounted = False, showBanner = False, isVisible = False, consent = None,
      scriptsInjectedRef = False, consentModeInitRef = False, timers = []\<rparr>"

text \<open>
  React runs a handler or an effect against the values of the render it was created in
  (\<open>snap\<close>), queues the \<open>setState\<close> calls (applied together, in order, at the next
  render: the component \<open>c\<close> threaded through carries them) and applies writes to refs at
  once (also in \<open>c\<close>).
\<close>

subsection \<open>Effects\<close>

text \<open>"Initialize on mount", dependencies \<open>[expiryDays]\<close>.\<close>

definition effect_init :: "props \<Rightarrow> component \<times> world \<Rightarrow> component \<times> world" where
  "effect_init p cw =
     (case cw of (c, w) \<Rightarrow>
        (case getStoredConsent (expiryDays p) (clock w) (localStorage w) of (stored, st) \<Rightarrow>
           let c1 = c\<lparr>mounted := True, consent := stored\<rparr>;
               c2 = (if \<not> truthy stored then c1\<lparr>showBanner := True\<rparr> else c1)
           in (c2, w\<lparr>localStorage := st\<rparr>)))"

text \<open>
  The listener of "Sync with external consent changes", registered on the window for the
  change event and the \<open>storage\<close> event while \<open>mounted\<close>; \<open>showBanner\<close> is the value of
  the render that registered it.
\<close>

definition sync_handler :: "props \<Rightarrow> component \<Rightarrow> component \<times> world \<Rightarrow> component \<times> world" where
  "sync_handler p snap cw =
     (case cw of (c, w) \<Rightarrow>
        (case getStoredConsent (expiryDays p) (clock w) (localStorage w) of (stored, st) \<Rightarrow>
           let c1 = c\<lparr>consent := stored\<rparr>;
               c2 = (if \<not> truthy stored \<and> \<not> showBanner snap
                     then c1\<lparr>isVisible := False, showBanner := True\<rparr> else c1)
           in (c2, w\<lparr>localStorage := st\<rparr>)))"

text \<open>\<open>window.dispatchEvent\<close> calls the registered listeners before it returns.\<close>

definition listeners :: "props \<Rightarrow> component \<Rightarrow> component \<times> world \<Rightarrow> component \<times> world" where
  "listeners p snap cw = (if mounted snap then sync_handler p snap cw else cw)"

definition tracking_payload :: "bool \<Rightarrow> jv" where
  "tracking_payload granted =
     (let v = JStr (if granted then ''granted'' else ''denied'')
      in JObj [(''ad_storage'', v), (''ad_user_data'', v),
               (''ad_personalization'', v), (''analytics_storage'', v)])"

definition defaultConsent :: "props \<Rightarrow> (string \<times> jv) list" where
  "defaultConsent p =
     [(''ad_storage'', JStr ''denied''),
      (''ad_user_data'', JStr ''denied''),
      (''ad_personalization'', JStr ''denied''),
      (''analytics_storage'', JStr ''denied''),
      (''functionality_storage'', JStr ''granted''),
      (''personalization_storage'', JStr ''granted''),
      (''security_storage'', JStr ''granted''),
      (''wait_for_update'', JNum (waitForUpdate p))]
     @ (case consentModeRegion p of
          None \<Rightarrow> []
        | Some r \<Rightarrow> if length r > 0 then [(''region'', JArr (map JStr r))] else [])"

text \<open>"Google Consent Mode v2", dependencies \<open>consentMode, consent, mounted\<close> and props.\<close>

definition effect_consent_mode :: "props \<Rightarrow> component \<Rightarrow> component \<times> world \<Rightarrow> component \<times> world" where
  "effect_consent_mode p snap cw =
     (case cw of (c, w) \<Rightarrow>
        if \<not> consentMode p \<or> \<not> mounted snap then (c, w)
        else
          let w1 = w\<lparr>dataLayer := (case dataLayer w of None \<Rightarrow> Some [] | Some l \<Rightarrow> Some l)\<rparr>;
              w2 = (if gtag w1 = None then w1\<lparr>gtag := Some Component_gtag\<rparr> else w1)
          in if consentModeInitRef c then (c, w2)
             else
               let c1 = c\<lparr>consentModeInitRef := True\<rparr>
               in (case call_gtag [JStr ''consent'', JStr ''default'', JObj (defaultConsent p)] w2 of
                     Inl e \<Rightarrow> (c1, uncaught e w2)
                   | Inr w3 \<Rightarrow>
                       (case (if adsDataRedaction p
                              then call_gtag [JStr ''set'', JStr ''ads_data_redaction'', JBool True] w3
                              else Inr w3) of
                          Inl e \<Rightarrow> (c1, uncaught e w3)
                        | Inr w4 \<Rightarrow>
                            (case (if urlPassthrough p
                                   then call_gtag [JStr ''set'', JStr ''url_passthrough'', JBool True] w4
                                   else Inr w4) of
                               Inl e \<Rightarrow> (c1, uncaught e w4)
                             | Inr w5 \<Rightarrow>
                                 (case (if consent snap = Some ''all''
                                        then call_gtag [JStr ''consent'', JStr ''update'',
                                                        tracking_payload True] w5
                                        else Inr w5) of
                                    Inl e \<Rightarrow> (c1, uncaught e w5)
                                  | Inr w6 \<Rightarrow> (c1, w6))))))"

text \<open>
  "Script Vault", dependencies \<open>[scripts, consent, mounted]\<close>. The browser parses the
  markup (\<open>querySelectorAll_script\<close>); each script element found is rebuilt and appended
  to \<open>document.head\<close>.
\<close>

definition rebuild_script :: "script_el \<Rightarrow> new_script" where
  "rebuild_script el =
     \<lparr>ns_src = (if el_src el \<noteq> [] then Some (el_src el) else None),
      ns_textContent =
        (if el_src el \<noteq> [] then []
         else if el_text el \<noteq> [] then el_text el else el_textContent el),
      ns_attributes = filter (\<lambda>(name, v). name \<noteq> ''src'') (el_attributes el)\<rparr>"

definition effect_scripts :: "props \<Rightarrow> component \<Rightarrow> component \<times> world \<Rightarrow> component \<times> world" where
  "effect_scripts p snap cw =
     (case cw of (c, w) \<Rightarrow>
        if scripts p = [] \<or> consent snap \<noteq> Some ''all'' \<or> \<not> mounted snap \<or> scriptsInjectedRef c
        then (c, w)
        else (c\<lparr>scriptsInjectedRef := True\<rparr>,
              w\<lparr>head := head w @ map rebuild_script (querySelectorAll_script w (scripts p)),
                trace := trace w @ [Injected (scripts p)]\<rparr>))"

text \<open>
  One commit: the effects whose dependencies differ from the previous render's run in the
  order of the source, against the rendered values \<open>snap\<close>; on the first render
  (\<open>prev = None\<close>) all of them run. The effects that only register listeners, timers or
  animation frames appear as events below.
\<close>

definition deps_changed :: "component option \<Rightarrow> component \<Rightarrow> bool" where
  "deps_changed prev snap =
     (case prev of
        None \<Rightarrow> True
      | Some q \<Rightarrow> consent q \<noteq> consent snap \<or> mounted q \<noteq> mounted snap)"

definition commit :: "props \<Rightarrow> component option \<Rightarrow> component \<Rightarrow> component \<times> world \<Rightarrow> component \<times> world" where
  "commit p prev snap cw =
     (let s1 = (if prev = None then effect_init p cw else cw);
          s2 = (if deps_changed prev snap then effect_consent_mode p snap s1 else s1)
      in if deps_changed prev snap then effect_scripts p snap s2 else s2)"

text \<open>
  Mounting: the first render commits the initial state; the state set by its effects is
  rendered and committed in turn.
\<close>

definition mount :: "props \<Rightarrow> world \<Rightarrow> component \<times> world" where
  "mount p w =
     (case commit p None initial_component (initial_component, w) of (c1, w1) \<Rightarrow>
        commit p (Some initial_component) c1 (c1, w1))"

subsection \<open>Handlers\<close>

text \<open>
  The call to \<open>gtag\<close> is outside the \<open>try\<close> block: when it throws, the handler ends
  there, with the store written and the two state updates queued, before the callback, the
  broadcast and the timer.
\<close>

definition handleConsent :: "props \<Rightarrow> ConsentLevel \<Rightarrow> component \<Rightarrow> component \<times> world \<Rightarrow> component \<times> world" where
  "handleConsent p level snap cw =
     (case cw of (c, w) \<Rightarrow>
        let w1 = w\<lparr>localStorage := store_consent level (clock w) (localStorage w)\<rparr>;
            c1 = c\<lparr>consent := Some (level_string level), isVisible := False\<rparr>
        in (case (if consentMode p
                  then (case gtag w1 of
                          None \<Rightarrow> Inr w1
                        | Some f \<Rightarrow>
                            call_gtag [JStr ''consent'', JStr ''update'',
                                       tracking_payload (level = All)] w1)
                  else Inr w1) of
              Inl e \<Rightarrow> (c1, uncaught e w1)
            | Inr w2 \<Rightarrow>
                let w3 = (if onConsent p then w2\<lparr>trace := trace w2 @ [Callback level]\<rparr> else w2)
                in (case listeners p snap (c1, dispatchEvent w3) of (c2, w4) \<Rightarrow>
                      (c2\<lparr>timers := timers c2 @ [level]\<rparr>, w4))))"

definition handleReconsent :: "props \<Rightarrow> component \<Rightarrow> component \<times> world \<Rightarrow> component \<times> world" where
  "handleReconsent p snap cw =
     (case cw of (c, w) \<Rightarrow>
        let w1 = w\<lparr>localStorage := clear_consent (localStorage w)\<rparr>;
            c1 = c\<lparr>consent := None, isVisible := False, showBanner := True,
                   scriptsInjectedRef := False\<rparr>
        in listeners p snap (c1, dispatchEvent w1))"

text \<open>The callback \<open>handleConsent\<close> scheduled with \<open>setTimeout(..., 400)\<close>.\<close>

definition exit_timer :: "props \<Rightarrow> component \<times> world \<Rightarrow> component \<times> world" where
  "exit_timer p cw =
     (case cw of (c, w) \<Rightarrow>
        (case timers c of
           [] \<Rightarrow> (c, w)
         | level # rest \<Rightarrow>
             (c\<lparr>showBanner := False, timers := rest\<rparr>,
              if reloadOnConsent p \<and> level = All \<and> scripts p \<noteq> []
              then w\<lparr>trace := trace w @ [Reloaded]\<rparr> else w)))"

subsection \<open>Executions\<close>

text \<open>
  What can happen to a mounted component. The two buttons and the Escape key exist while
  the banner is rendered, the reconsent button while it is not and a consent is held.
  \<open>Foreign_write\<close> is another tab or script replacing the store's entries, \<open>Change_event\<close>
  the \<open>storage\<close> event that follows; \<open>Hook_setConsent\<close> and \<open>Hook_resetConsent\<close> are
  the host calling the hook's functions on the same page. \<open>Parent_render\<close> is the parent
  rendering again with a new array for \<open>consentModeRegion\<close> (an array literal in JSX is a
  new object at every render): the consent-mode effect, which depends on it, runs again.
\<close>

datatype event =
    Decide ConsentLevel
  | Reconsent
  | Change_event
  | Foreign_write "(string \<times> string) list"
  | Hook_setConsent ConsentLevel
  | Hook_resetConsent
  | Exit_timer
  | Animation_frame
  | Clock_advance nat
  | Parent_render

definition handle :: "props \<Rightarrow> event \<Rightarrow> component \<times> world \<Rightarrow> component \<times> world" where
  "handle p ev cw =
     (case cw of (c, w) \<Rightarrow>
        (case ev of
           Decide level \<Rightarrow>
             if mounted c \<and> showBanner c then handleConsent p level c (c, w) else (c, w)
         | Reconsent \<Rightarrow>
             if mounted c \<and> \<not> showBanner c \<and> consent c \<noteq> None \<and> showReconsent p
             then handleReconsent p c (c, w) else (c, w)
         | Change_event \<Rightarrow> listeners p c (c, w)
         | Foreign_write kvs \<Rightarrow> (c, w\<lparr>localStorage := (localStorage w)\<lparr>items := kvs\<rparr>\<rparr>)
         | Hook_setConsent level \<Rightarrow> listeners p c (c, setConsent level w)
         | Hook_resetConsent \<Rightarrow> listeners p c (c, resetConsent w)
         | Exit_timer \<Rightarrow> exit_timer p (c, w)
         | Animation_frame \<Rightarrow>
             if mounted c \<and> showBanner c then (c\<lparr>isVisible := True\<rparr>, w) else (c, w)
         | Clock_advance n \<Rightarrow> (c, w\<lparr>clock := clock w + int n\<rparr>)
         | Parent_render \<Rightarrow> effect_consent_mode p c (c, w)))"

text \<open>An event is handled, then the new state is rendered and committed.\<close>

definition step :: "props \<Rightarrow> event \<Rightarrow> component \<times> world \<Rightarrow> component \<times> world" where
  "step p ev cw = commit p (Some (fst cw)) (fst (handle p ev cw)) (handle p ev cw)"

fun run :: "props \<Rightarrow> event list \<Rightarrow> component \<times> world \<Rightarrow> component \<times> world" where
  "run p [] cw = cw"
| "run p (ev # evs) cw = run p evs (step p ev cw)"

definition injections :: "action list \<Rightarrow> nat" where
  "injections tr = length (filter (\<lambda>a. case a of Injected m \<Rightarrow> True | _ \<Rightarrow> False) tr)"

section \<open>The bootstrap script (consent-mode.ts)\<close>

datatype consent_value = Granted | Denied

fun consent_value_string :: "consent_value \<Rightarrow> string" where
  "consent_value_string Granted = ''granted''"
| "consent_value_string Denied = ''denied''"

text \<open>The interface \<open>ConsentModeDefaults\<close>: every field is optional.\<close>

record ConsentModeDefaults =
  analytics_storage :: "consent_value option"
  ad_storage :: "consent_value option"
  ad_user_data :: "consent_value option"
  ad_personalization :: "consent_value option"
  functionality_storage :: "consent_value option"
  personalization_storage :: "consent_value option"
  security_storage :: "consent_value option"
  wait_for_update :: "int option"
  region :: "string list option"
  ads_data_redaction :: "bool option"
  url_passthrough :: "bool option"
  expiry_days :: "int option"

definition no_options :: ConsentModeDefaults where
  "no_options =
     \<lparr>analytics_storage = None, ad_storage = None, ad_user_data = None,
      ad_personalization = None, functionality_storage = None,
      personalization_storage = None, security_storage = None, wait_for_update = None,
      region = None, ads_data_redaction = None, url_passthrough = None,
      expiry_days = None\<rparr>"

text \<open>The operator \<open>??\<close>.\<close>

fun nullish :: "'a option \<Rightarrow> 'a \<Rightarrow> 'a" where
  "nullish None d = d"
| "nullish (Some v) d = v"

subsection \<open>\<open>JSON.stringify\<close>\<close>

definition hex_digit :: "nat \<Rightarrow> char" where
  "hex_digit n =
     (if n < 10 then digit_char n
      else if n = 10 then CHR ''a'' else if n = 11 then CHR ''b'' else if n = 12 then CHR ''c''
      else if n = 13 then CHR ''d'' else if n = 14 then CHR ''e'' else CHR ''f'')"

definition json_escape :: "char \<Rightarrow> string" where
  "json_escape c =
     (if c = CHR 0x22 then [CHR 0x5C, CHR 0x22]
      else if c = CHR 0x5C then [CHR 0x5C, CHR 0x5C]
      else if c = CHR 0x08 then [CHR 0x5C, CHR ''b'']
      else if c = CHR 0x0C then [CHR 0x5C, CHR ''f'']
      else if c = CHR 0x0A then [CHR 0x5C, CHR ''n'']
      else if c = CHR 0x0D then [CHR 0x5C, CHR ''r'']
      else if c = CHR 0x09 then [CHR 0x5C, CHR ''t'']
      else if (of_char c :: nat) < 32
        then [CHR 0x5C, CHR ''u'', CHR ''0'', CHR ''0'',
              hex_digit ((of_char c :: nat) div 16), hex_digit ((of_char c :: nat) mod 16)]
      else [c])"

definition json_quote :: "string \<Rightarrow> string" where
  "json_quote s = [CHR 0x22] @ concat (map json_escape s) @ [CHR 0x22]"

fun join :: "string \<Rightarrow> string list \<Rightarrow> string" where
  "join sep [] = []"
| "join sep [x] = x"
| "join sep (x # y # ys) = x @ sep @ join sep (y # ys)"

fun JSON_stringify :: "jv \<Rightarrow> string" where
  "JSON_stringify (JStr s) = json_quote s"
| "JSON_stringify (JNum i) = toString i"
| "JSON_stringify (JBool b) = (if b then ''true'' else ''false'')"
| "JSON_stringify (JArr xs) = ''['' @ join '','' (map JSON_stringify xs) @ '']''"
| "JSON_stringify (JObj kvs) =
     ''{'' @ join '','' (map (\<lambda>(k, v). json_quote k @ '':'' @ JSON_stringify v) kvs) @ ''}''"

subsection \<open>\<open>getConsentModeScript\<close>\<close>

definition defaultObj :: "ConsentModeDefaults \<Rightarrow> (string \<times> jv) list" where
  "defaultObj opts =
     [(''ad_storage'', JStr (consent_value_string (nullish (ad_storage opts) Denied))),
      (''ad_user_data'', JStr (consent_value_string (nullish (ad_user_data opts) Denied))),
      (''ad_personalization'',
         JStr (consent_value_string (nullish (ad_personalization opts) Denied))),
      (''analytics_storage'',
         JStr (consent_value_string (nullish (analytics_storage opts) Denied))),
      (''functionality_storage'',
         JStr (consent_value_string (nullish (functionality_storage opts) Granted))),
      (''personalization_storage'',
         JStr (consent_value_string (nullish (personalization_storage opts) Granted))),
      (''security_storage'',
         JStr (consent_value_string (nullish (security_storage opts) Granted))),
      (''wait_for_update'', JNum (nullish (wait_for_update opts) 500))]
     @ (case region opts of
          None \<Rightarrow> []
        | Some r \<Rightarrow> if length r > 0 then [(''region'', JArr (map JStr r))] else [])"

definition setCalls :: "ConsentModeDefaults \<Rightarrow> string list" where
  "setCalls opts =
     (if nullish (ads_data_redaction opts) False
      then [''gtag('set','ads_data_redaction',true);''] else [])
     @ (if nullish (url_passthrough opts) False
        then [''gtag('set','url_passthrough',true);''] else [])"

text \<open>
  The lines of the script that check for a returning user; the two storage keys and the
  expiry window are written into the text.
\<close>

definition check_lines :: "int \<Rightarrow> string list" where
  "check_lines days =
     [''(function(){'',
      ''  try{'',
      ''    var c=localStorage.getItem('' @ JSON_stringify (JStr STORAGE_KEY) @ '');'',
      ''    var d=localStorage.getItem('' @ JSON_stringify (JStr STORAGE_DATE_KEY) @ '');'',
      ''    if(c&&d){'',
      ''      var age=(Date.now()-parseInt(d,10))/(1000*60*60*24);'',
      ''      if(age<='' @ toString days @ ''&&c==='all'){'',
      ''        gtag('consent','update',{'',
      ''          'ad_storage':'granted','',
      ''          'ad_user_data':'granted','',
      ''          'ad_personalization':'granted','',
      ''          'analytics_storage':'granted'' @ [CHR 0x27],
      ''        });'',
      ''      }'',
      ''    }'',
      ''  }catch(e){}'',
      ''})();'']"

definition script_lines :: "ConsentModeDefaults \<Rightarrow> string list" where
  "script_lines opts =
     [''window.dataLayer=window.dataLayer||[];'',
      ''function gtag(){dataLayer.push(arguments);}'',
      ''gtag('consent','default','' @ JSON_stringify (JObj (defaultObj opts)) @ '');'']
     @ setCalls opts
     @ check_lines (nullish (expiry_days opts) DEFAULT_EXPIRY_DAYS)"

definition getConsentModeScript :: "ConsentModeDefaults option \<Rightarrow> string" where
  "getConsentModeScript options = join [CHR 0x0A] (script_lines (nullish options no_options))"

text \<open>
  What the returning-user lines do when the page runs them: \<open>inline_check\<close> says whether
  the \<open>update\<close> call is made, for the expiry window written into the text, the clock and
  the store of the page.
\<close>

definition inline_check :: "int \<Rightarrow> int \<Rightarrow> storage \<Rightarrow> bool" where
  "inline_check days now st =
     (case getItem st STORAGE_KEY of
        Inl e \<Rightarrow> False
      | Inr c \<Rightarrow>
          (case getItem st STORAGE_DATE_KEY of
             Inl e \<Rightarrow> False
           | Inr d \<Rightarrow>
               if truthy c \<and> truthy d then
                 (case d of
                    None \<Rightarrow> False
                  | Some ds \<Rightarrow>
                      let age = js_div (js_sub (Fin (of_int now)) (parseInt ds)) (1000 * 60 * 60 * 24)
                      in js_le age (Fin (of_int days)) \<and> c = Some ''all'')
               else False))"

section \<open>Notions used to state the properties\<close>

text \<open>The invariant of the stored record: the timestamp is present iff the level is.\<close>

definition record_invariant :: "storage \<Rightarrow> bool" where
  "record_invariant st =
     ((map_of (items st) STORAGE_DATE_KEY \<noteq> None) = (map_of (items st) STORAGE_KEY \<noteq> None))"

text \<open>
  The two \<open>setItem\<close> calls of a write both succeed, or the first one fails (the second is
  then not attempted).
\<close>

definition write_completes :: "ConsentLevel \<Rightarrow> int \<Rightarrow> storage \<Rightarrow> bool" where
  "write_completes level now st =
     (case setItem st STORAGE_KEY (level_string level) of
        Inl e \<Rightarrow> True
      | Inr st1 \<Rightarrow>
          (case setItem st1 STORAGE_DATE_KEY (toString now) of
             Inl e \<Rightarrow> False
           | Inr st2 \<Rightarrow> True))"

text \<open>
  The page after a call to \<open>gtag\<close> that returned (on a page on which \<open>window_ok\<close>
  holds and \<open>gtag\<close> is defined, every call returns and leaves this page).
\<close>

definition gtag_called :: "jv list \<Rightarrow> world \<Rightarrow> world" where
  "gtag_called args w =
     (case gtag w of
        Some Component_gtag \<Rightarrow>
          w\<lparr>dataLayer := map_option (\<lambda>l. l @ [args]) (dataLayer w),
            trace := trace w @ [Gtag args]\<rparr>
      | _ \<Rightarrow> w\<lparr>trace := trace w @ [Gtag args]\<rparr>)"

text \<open>The call to \<open>gtag\<close> in \<open>handleConsent\<close> throws.\<close>

definition gtag_throws :: "props \<Rightarrow> world \<Rightarrow> bool" where
  "gtag_throws p w = (consentMode p \<and> gtag w = Some Component_gtag \<and> dataLayer w = None)"

text \<open>
  The page at the moment \<open>handleConsent\<close> calls \<open>window.dispatchEvent\<close>, when it gets
  there: the store written, the signal sent and the callback called.
\<close>

definition before_dispatch :: "props \<Rightarrow> ConsentLevel \<Rightarrow> world \<Rightarrow> world" where
  "before_dispatch p level w =
     (let w1 = w\<lparr>localStorage := store_consent level (clock w) (localStorage w)\<rparr>;
          w2 = (if consentMode p
                then (case gtag w1 of
                        None \<Rightarrow> w1
                      | Some f \<Rightarrow>
                          gtag_called [JStr ''consent'', JStr ''update'',
                                       tracking_payload (level = All)] w1)
                else w1)
      in if onConsent p then w2\<lparr>trace := trace w2 @ [Callback level]\<rparr> else w2)"

text \<open>
  Readings of the trace: the calls made to \<open>gtag\<close>, the number of \<open>default\<close> signals
  among them, and (above) the number of injections. \<open>budget\<close> is the number of
  injections the one-shot guard still allows.
\<close>

fun is_default_signal :: "action \<Rightarrow> bool" where
  "is_default_signal (Gtag (JStr k # JStr m # rest)) = (k = ''consent'' \<and> m = ''default'')"
| "is_default_signal a = False"

definition default_signals :: "action list \<Rightarrow> nat" where
  "default_signals tr = length (filter is_default_signal tr)"

fun gtag_calls :: "action list \<Rightarrow> jv list list" where
  "gtag_calls [] = []"
| "gtag_calls (Gtag args # tr) = args # gtag_calls tr"
| "gtag_calls (a # tr) = gtag_calls tr"

definition budget :: "component \<Rightarrow> nat" where
  "budget c = (if scriptsInjectedRef c then 0 else 1)"

text \<open>The calls the consent-mode effect makes on its first activation, \<open>held\<close> being the
  consent of the render it runs in.\<close>

definition signals_on_mount :: "props \<Rightarrow> string option \<Rightarrow> jv list list" where
  "signals_on_mount p held =
     [[JStr ''consent'', JStr ''default'', JObj (defaultConsent p)]]
     @ (if adsDataRedaction p then [[JStr ''set'', JStr ''ads_data_redaction'', JBool True]] else [])
     @ (if urlPassthrough p then [[JStr ''set'', JStr ''url_passthrough'', JBool True]] else [])
     @ (if held = Some ''all'' then [[JStr ''consent'', JStr ''update'', tracking_payload True]] else [])"

text \<open>The state set by the first commit, \<open>stored\<close> being what the store gave.\<close>

definition mounted_component :: "string option \<Rightarrow> component" where
  "mounted_component stored =
     (if \<not> truthy stored
      then initial_component\<lparr>mounted := True, consent := stored, showBanner := True\<rparr>
      else initial_component\<lparr>mounted := True, consent := stored\<rparr>)"

section \<open>Example states\<close>

text \<open>Stores used to evaluate the code at concrete inputs.\<close>

definition store_valid :: storage where
  "store_valid = \<lparr>items = [(''loi25-consent'', ''all''), (''loi25-consent-date'', ''1700000000000'')],
     accessible = True, quota = 5000000\<rparr>"

definition store_odd_level :: storage where
  "store_odd_level = \<lparr>items = [(''loi25-consent'', ''maybe''), (''loi25-consent-date'', ''1700000000000'')],
     accessible = True, quota = 5000000\<rparr>"

definition store_empty_level :: storage where
  "store_empty_level = \<lparr>items = [(''loi25-consent'', ''''), (''loi25-consent-date'', ''1700000000000'')],
     accessible = True, quota = 5000000\<rparr>"

definition store_bad_date :: storage where
  "store_bad_date = \<lparr>items = [(''loi25-consent'', ''all''), (''loi25-consent-date'', ''abc'')],
     accessible = True, quota = 5000000\<rparr>"

text \<open>Pages and components used to evaluate the code at concrete inputs.\<close>

definition fresh_world :: world where
  "fresh_world =
     \<lparr>localStorage = \<lparr>items = [], accessible = True, quota = 5000000\<rparr>,
      clock = 1700000000000, dataLayer = None, gtag = None, head = [],
      querySelectorAll_script =
        (\<lambda>markup.
           if markup = ''<script src='https://example.org/t.js'></script>''
           then [\<lparr>el_src = ''https://example.org/t.js'', el_text = [], el_textContent = [],
                  el_attributes = [(''src'', ''https://example.org/t.js'')]\<rparr>]
           else []),
      trace = []\<rparr>"

definition tight_world :: world where
  "tight_world = fresh_world\<lparr>localStorage := \<lparr>items = [], accessible = True, quota = 20\<rparr>\<rparr>"

definition tagged_tight_world :: world where
  "tagged_tight_world = tight_world\<lparr>dataLayer := Some [], gtag := Some Component_gtag\<rparr>"

definition queue_removed_world :: world where
  "queue_removed_world = tight_world\<lparr>dataLayer := None, gtag := Some Component_gtag\<rparr>"

definition full_world :: world where
  "full_world = fresh_world\<lparr>localStorage := \<lparr>items = [], accessible = True, quota = 0\<rparr>\<rparr>"

definition banner_props :: props where
  "banner_props =
     \<lparr>expiryDays = 365, showReconsent = True, onConsent = True, consentMode = True,
      adsDataRedaction = False, urlPassthrough = False, consentModeRegion = None,
      waitForUpdate = 500, scripts = ''<script src='https://example.org/t.js'></script>'',
      reloadOnConsent = False\<rparr>"

definition prompting :: component where
  "prompting = initial_component\<lparr>mounted := True, showBanner := True, isVisible := True,
     consentModeInitRef := True\<rparr>"

definition offline_world :: world where
  "offline_world =
     fresh_world\<lparr>localStorage := \<lparr>items = [], accessible = False, quota = 0\<rparr>,
       dataLayer := Some [], gtag := Some Component_gtag\<rparr>"

definition tagged_world :: world where
  "tagged_world = fresh_world\<lparr>dataLayer := Some [], gtag := Some Component_gtag\<rparr>"

definition decided :: component where
  "decided = initial_component\<lparr>mounted := True, consent := Some ''all'',
     scriptsInjectedRef := True, consentModeInitRef := True\<rparr>"

definition returning_world :: world where
  "returning_world = fresh_world\<lparr>localStorage := store_valid, clock := 1700864000000\<rparr>"

section \<open>Properties\<close>

subsection \<open>Numbers and strings\<close>

lemma keys_differ: "STORAGE_KEY \<noteq> STORAGE_DATE_KEY" "STORAGE_DATE_KEY \<noteq> STORAGE_KEY"
  by (simp_all add: STORAGE_KEY_def STORAGE_DATE_KEY_def)

lemma digits_val_snoc: "digits_val (ds @ [c]) = digits_val ds * 10 + digit_val c"
  by (simp add: digits_val_def)

lemma below_ten: "n < 10 \<Longrightarrow> n \<in> {0, 1, 2, 3, 4, 5, 6, 7, 8, 9::nat}"
  by auto

lemma digit_char_props:
  assumes "n < 10"
  shows "is_digit (digit_char n)" and "digit_val (digit_char n) = n"
  using below_ten [OF assms] by (auto simp add: is_digit_def digit_val_def digit_char_def)

lemma nat_string_digits: "list_all is_digit (nat_string n)"
proof (induction n rule: nat_string.induct)
  case (1 n)
  show ?case
  proof (cases "n < 10")
    case True
    then show ?thesis by (subst nat_string.simps) (simp add: digit_char_props)
  next
    case False
    then show ?thesis using 1 by (subst nat_string.simps) (simp add: digit_char_props)
  qed
qed

lemma nat_string_nonempty: "nat_string n \<noteq> []"
  by (subst nat_string.simps) simp

lemma nat_string_value: "digits_val (nat_string n) = n"
proof (induction n rule: nat_string.induct)
  case (1 n)
  show ?case
  proof (cases "n < 10")
    case True
    then show ?thesis
      by (subst nat_string.simps) (simp add: digits_val_def digit_char_props)
  next
    case False
    then have "digits_val (nat_string (n div 10)) = n div 10" using 1 by simp
    with False show ?thesis
      by (subst nat_string.simps) (simp add: digits_val_snoc digit_char_props)
  qed
qed

lemma digit_not_space_sign:
  assumes "is_digit c"
  shows "\<not> is_js_space c" and "c \<noteq> CHR ''-''" and "c \<noteq> CHR ''+''"
  using assms by (auto simp add: is_digit_def is_js_space_def)

lemma parseInt_digits:
  assumes "ds \<noteq> []" and "list_all is_digit ds"
  shows "parseInt ds = Fin (of_nat (digits_val ds))"
    and "parseInt (CHR ''-'' # ds) = Fin (- of_nat (digits_val ds))"
proof -
  obtain c cs where ds: "ds = c # cs" using assms(1) by (cases ds) auto
  then have c: "is_digit c" using assms(2) by simp
  have tw: "takeWhile is_digit cs = cs"
    using assms(2) ds by (simp add: list_all_iff)
  show "parseInt ds = Fin (of_nat (digits_val ds))"
    using c digit_not_space_sign [OF c] by (simp add: parseInt_def ds tw)
  have "\<not> is_js_space (CHR ''-'')" by (simp add: is_js_space_def)
  then show "parseInt (CHR ''-'' # ds) = Fin (- of_nat (digits_val ds))"
    using c by (simp add: parseInt_def ds tw)
qed

lemma parseInt_toString: "parseInt (toString i) = Fin (of_int i)"
proof (cases "i < 0")
  case True
  then have "of_nat (nat (- i)) = - (of_int i :: rat)"
    by simp
  then show ?thesis
    using True parseInt_digits(2) [OF nat_string_nonempty nat_string_digits, of "nat (- i)"]
    by (simp add: toString_def nat_string_value)
next
  case False
  then have "of_nat (nat i) = (of_int i :: rat)"
    by simp
  then show ?thesis
    using False parseInt_digits(1) [OF nat_string_nonempty nat_string_digits, of "nat i"]
    by (simp add: toString_def nat_string_value)
qed

lemma parse_example: "parseInt ''1700000000000'' = Fin 1700000000000"
  by (simp add: parseInt_def is_js_space_def is_digit_def digits_val_def digit_val_def)

lemma parse_abc: "parseInt ''abc'' = NaN"
  by (simp add: parseInt_def is_js_space_def is_digit_def)

subsection \<open>Reading the store\<close>

lemma getItem_accessible: "accessible st \<Longrightarrow> getItem st k = Inr (map_of (items st) k)"
  by (simp add: getItem_def)

text \<open>
  C1. Reading the store, for a stored record with level entry \<open>s\<close> and timestamp entry
  \<open>t\<close> in a reachable store, and any expiry window \<open>E\<close>. The code does not validate the
  level: every non-empty \<open>s\<close> is returned as it is. With \<open>t\<close> a timestamp that
  \<open>parseInt\<close> reads as \<open>ts\<close> and \<open>D = (now - ts) / 86400000\<close>: if \<open>D \<le> E\<close> the read
  returns \<open>s\<close> and leaves the store as it is; if \<open>D > E\<close> it returns null and both
  entries are gone afterwards. An empty level entry gives null and the store is left as it
  is. (A timestamp that does not parse is the subject of C8.)
\<close>

theorem read_valid_expired_or_empty:
  assumes "accessible st"
    and "map_of (items st) STORAGE_KEY = Some s"
    and "map_of (items st) STORAGE_DATE_KEY = Some t"
  shows "(s \<noteq> [] \<and> parseInt t = Fin ts \<and> (of_int now - ts) / 86400000 \<le> E
            \<longrightarrow> getStoredConsent E now st = (Some s, st))
       \<and> (s \<noteq> [] \<and> parseInt t = Fin ts \<and> (of_int now - ts) / 86400000 > E
            \<longrightarrow> fst (getStoredConsent E now st) = None
              \<and> getItem (snd (getStoredConsent E now st)) STORAGE_KEY = Inr None
              \<and> getItem (snd (getStoredConsent E now st)) STORAGE_DATE_KEY = Inr None)
       \<and> (s = [] \<longrightarrow> getStoredConsent E now st = (None, st))"
proof -
  have nonempty: "parseInt t = Fin ts \<Longrightarrow> t \<noteq> []"
    by (auto simp add: parseInt_def)
  show ?thesis
    using assms nonempty
    by (auto simp add: getStoredConsent_def isExpired_def getItem_def removeItem_def
        delete_conv' keys_differ)
qed

text \<open>
  The record \<open>("all", 1700000000000)\<close> read ten days later, and 366 days later, with
  an expiry window of 365 days.
\<close>

theorem read_valid_expired_or_empty_witness:
  "accessible store_valid
   \<and> map_of (items store_valid) STORAGE_KEY = Some ''all''
   \<and> map_of (items store_valid) STORAGE_DATE_KEY = Some ''1700000000000''
   \<and> getStoredConsent 365 1700864000000 store_valid = (Some ''all'', store_valid)
   \<and> fst (getStoredConsent 365 1731622400000 store_valid) = None
   \<and> getItem (snd (getStoredConsent 365 1731622400000 store_valid)) STORAGE_KEY = Inr None
   \<and> getItem (snd (getStoredConsent 365 1731622400000 store_valid)) STORAGE_DATE_KEY = Inr None"
  using read_valid_expired_or_empty [of store_valid "''all''" "''1700000000000''" 1700000000000 1700864000000 365]
    read_valid_expired_or_empty [of store_valid "''all''" "''1700000000000''" 1700000000000 1731622400000 365]
  by (simp add: store_valid_def STORAGE_KEY_def STORAGE_DATE_KEY_def parse_example)

text \<open>
  C1 as stated fails: a level entry that is neither \<open>all\<close> nor \<open>necessary\<close>, ten days
  old, is returned and nothing is deleted; and an empty level entry gives null with both
  entries left in the store.
\<close>

theorem read_unvalidated_level_counterexample:
  "getStoredConsent 365 1700864000000 store_odd_level = (Some ''maybe'', store_odd_level)
   \<and> getStoredConsent 365 1700864000000 store_empty_level = (None, store_empty_level)"
  by (simp add: getStoredConsent_def isExpired_def getItem_def store_odd_level_def
      store_empty_level_def STORAGE_KEY_def STORAGE_DATE_KEY_def parse_example)

subsection \<open>Storage that fails, timestamps that are missing or do not parse\<close>

text \<open>
  When the storage throws, the component's read and the hook's read give null, and so do
  they when the timestamp entry is missing or empty. No function of the model has an error
  result: every \<open>try\<close> block of the source catches what the storage throws.
\<close>

lemma read_unavailable_storage:
  assumes "\<not> accessible st"
  shows "getStoredConsent E now st = (None, st)" and "useConsent E now st = None"
  using assms by (simp_all add: getStoredConsent_def useConsent_def getSnapshot_def getItem_def)

lemma expired_missing_timestamp:
  assumes "accessible st"
    and "map_of (items st) STORAGE_DATE_KEY = None \<or> map_of (items st) STORAGE_DATE_KEY = Some []"
  shows "isExpired E now st"
  using assms by (auto simp add: isExpired_def getItem_def)

lemma read_missing_timestamp:
  assumes "accessible st"
    and "map_of (items st) STORAGE_DATE_KEY = None \<or> map_of (items st) STORAGE_DATE_KEY = Some []"
  shows "fst (getStoredConsent E now st) = None" and "useConsent E now st = None"
  using assms(1) expired_missing_timestamp [OF assms]
  by (simp_all add: getStoredConsent_def useConsent_def getSnapshot_def Let_def
      getItem_def removeItem_def)

text \<open>
  C8. With a timestamp entry that does not parse (\<open>abc\<close>), \<open>parseInt\<close> gives \<open>NaN\<close>,
  the age is \<open>NaN\<close> and \<open>age > expiryDays\<close> is false: \<open>isExpired\<close> answers false, and
  both the component's read and the hook's read return the stored level instead of null.
  The returning-user check of the bootstrap script, which tests \<open>age <= expiryDays\<close>,
  rejects the same record.
\<close>

theorem unparsable_timestamp_read:
  "getStoredConsent 365 1700864000000 store_bad_date = (Some ''all'', store_bad_date)
   \<and> useConsent 365 1700864000000 store_bad_date = Some ''all''
   \<and> \<not> inline_check 365 1700864000000 store_bad_date"
  by (simp add: getStoredConsent_def useConsent_def getSnapshot_def isExpired_def inline_check_def
      getItem_def store_bad_date_def STORAGE_KEY_def STORAGE_DATE_KEY_def parse_abc)

subsection \<open>Storage operations\<close>

lemma level_string_nonempty: "level_string level \<noteq> []"
  by (cases level) simp_all

lemma setItem_result:
  assumes "setItem st k v = Inr st'"
  shows "accessible st" and "st' = st\<lparr>items := AList.update k v (items st)\<rparr>"
  using assms by (auto simp add: setItem_def Let_def split: if_splits)

lemma toString_example: "toString 1700000000000 = ''1700000000000''"
  by (simp add: toString_def nat_string.simps digit_char_def)


lemma removeItem_accessible:
  "accessible st \<Longrightarrow> removeItem st k = Inr (st\<lparr>items := AList.delete k (items st)\<rparr>)"
  by (simp add: removeItem_def)

lemma removeItem_unavailable: "\<not> accessible st \<Longrightarrow> removeItem st k = Inl SecurityError"
  by (simp add: removeItem_def)

lemma clear_consent_accessible:
  "accessible st \<Longrightarrow>
   clear_consent st
     = st\<lparr>items := AList.delete STORAGE_DATE_KEY (AList.delete STORAGE_KEY (items st))\<rparr>"
  by (simp add: clear_consent_def removeItem_def)

lemma clear_consent_unavailable: "\<not> accessible st \<Longrightarrow> clear_consent st = st"
  by (simp add: clear_consent_def removeItem_def)

lemma clear_keeps_invariant: "record_invariant (clear_consent st)"  if "record_invariant st"
proof (cases "accessible st")
  case True
  then show ?thesis
    by (simp add: clear_consent_accessible record_invariant_def delete_conv' keys_differ)
next
  case False
  then show ?thesis using that by (simp add: clear_consent_unavailable)
qed

lemma read_cases:
  "snd (getStoredConsent E now st) = st \<or> snd (getStoredConsent E now st) = clear_consent st"
  by (auto simp add: getStoredConsent_def clear_consent_def getItem_def removeItem_def
      split: sum.splits)

lemma read_keeps_invariant:
  assumes "record_invariant st"
  shows "record_invariant (snd (getStoredConsent E now st))"
  using read_cases [of E now st] assms clear_keeps_invariant [OF assms] by auto

lemma not_expired_has_timestamp:
  assumes "\<not> isExpired E now st"
  shows "accessible st \<and> map_of (items st) STORAGE_DATE_KEY \<noteq> None"
  using assms by (auto simp add: isExpired_def getItem_def split: if_splits option.splits)

lemma read_restores_invariant:
  assumes "accessible st" and "truthy (map_of (items st) STORAGE_KEY)"
  shows "record_invariant (snd (getStoredConsent E now st))"
proof (cases "isExpired E now st")
  case True
  then show ?thesis
    using assms
    by (simp add: getStoredConsent_def getItem_def removeItem_def record_invariant_def
        delete_conv' keys_differ)
next
  case False
  from assms(2) have "map_of (items st) STORAGE_KEY \<noteq> None"
    by (cases "map_of (items st) STORAGE_KEY") simp_all
  then show ?thesis
    using False assms not_expired_has_timestamp [OF False]
    by (simp add: getStoredConsent_def getItem_def record_invariant_def)
qed

lemma store_consent_cases:
  "store_consent level now st = st
   \<or> (accessible st \<and> map_of (items (store_consent level now st)) STORAGE_KEY = Some (level_string level)
       \<and> accessible (store_consent level now st))"
  by (auto simp add: store_consent_def setItem_def Let_def update_conv' keys_differ
      split: sum.splits if_splits)

lemma write_then_read_keeps_invariant:
  assumes "record_invariant st"
  shows "record_invariant (snd (getStoredConsent E now (store_consent level now' st)))"
  using store_consent_cases [of level now' st]
proof
  assume "store_consent level now' st = st"
  then show ?thesis using read_keeps_invariant [OF assms] by simp
next
  assume a: "accessible st \<and> map_of (items (store_consent level now' st)) STORAGE_KEY = Some (level_string level)
       \<and> accessible (store_consent level now' st)"
  then have "truthy (map_of (items (store_consent level now' st)) STORAGE_KEY)"
    by (simp add: level_string_nonempty)
  with a show ?thesis by (simp add: read_restores_invariant)
qed

lemma complete_write_keeps_invariant:
  assumes "record_invariant st"
    and "write_completes level now st \<or> map_of (items st) STORAGE_KEY \<noteq> None"
  shows "record_invariant (store_consent level now st)"
  using assms
  by (auto simp add: record_invariant_def write_completes_def store_consent_def setItem_def
      Let_def update_conv' keys_differ split: sum.splits if_splits)

subsection \<open>The handlers, field by field\<close>

lemma gtag_called_fields [simp]:
  "localStorage (gtag_called a w) = localStorage w"
  "clock (gtag_called a w) = clock w"
  "gtag (gtag_called a w) = gtag w"
  "head (gtag_called a w) = head w"
  "querySelectorAll_script (gtag_called a w) = querySelectorAll_script w"
  by (simp_all add: gtag_called_def split: option.splits gtag_fn.splits)

lemma gtag_called_trace:
  "gtag w \<noteq> None \<Longrightarrow> trace (gtag_called a w) = trace w @ [Gtag a]"
  by (auto simp add: gtag_called_def split: option.splits gtag_fn.splits)

lemma gtag_called_dataLayer:
  "dataLayer (gtag_called a w)
     = (if gtag w = Some Component_gtag then map_option (\<lambda>l. l @ [a]) (dataLayer w)
        else dataLayer w)"
  by (auto simp add: gtag_called_def split: option.splits gtag_fn.splits)

lemma call_gtag_returns:
  assumes "gtag w \<noteq> None" and "window_ok w"
  shows "call_gtag a w = Inr (gtag_called a w)"
proof -
  obtain f where f: "gtag w = Some f" using assms(1) by auto
  show ?thesis
  proof (cases f)
    case Component_gtag
    then obtain l where "dataLayer w = Some l"
      using assms(2) f by (auto simp add: window_ok_def)
    then show ?thesis using f Component_gtag by (simp add: call_gtag_def gtag_called_def)
  next
    case Host_gtag
    then show ?thesis using f by (simp add: call_gtag_def gtag_called_def)
  qed
qed

lemma gtag_called_window_ok [simp]: "window_ok w \<Longrightarrow> window_ok (gtag_called a w)"
  by (auto simp add: window_ok_def gtag_called_dataLayer)

lemma window_ok_no_throw [simp]: "window_ok w \<Longrightarrow> \<not> gtag_throws p w"
  by (simp add: window_ok_def gtag_throws_def)

lemma uncaught_fields [simp]:
  "localStorage (uncaught e w) = localStorage w"
  "clock (uncaught e w) = clock w"
  "gtag (uncaught e w) = gtag w"
  "dataLayer (uncaught e w) = dataLayer w"
  "head (uncaught e w) = head w"
  "trace (uncaught e w) = trace w @ [Uncaught e]"
  by (simp_all add: uncaught_def)

lemma dispatchEvent_fields [simp]:
  "localStorage (dispatchEvent w) = localStorage w"
  "clock (dispatchEvent w) = clock w"
  "gtag (dispatchEvent w) = gtag w"
  "dataLayer (dispatchEvent w) = dataLayer w"
  "head (dispatchEvent w) = head w"
  "trace (dispatchEvent w) = trace w @ [Dispatched]"
  by (simp_all add: dispatchEvent_def)

lemma before_dispatch_fields [simp]:
  "localStorage (before_dispatch p level w) = store_consent level (clock w) (localStorage w)"
  "clock (before_dispatch p level w) = clock w"
  "gtag (before_dispatch p level w) = gtag w"
  "head (before_dispatch p level w) = head w"
  by (simp_all add: before_dispatch_def Let_def split: option.splits)

lemma before_dispatch_trace:
  "trace (before_dispatch p level w)
     = trace w
       @ (if consentMode p \<and> gtag w \<noteq> None
          then [Gtag [JStr ''consent'', JStr ''update'', tracking_payload (level = All)]] else [])
       @ (if onConsent p then [Callback level] else [])"
  by (auto simp add: before_dispatch_def Let_def gtag_called_trace split: option.splits)

lemma decision_call:
  assumes "\<not> gtag_throws p w"
  shows "(if consentMode p
          then (case gtag (w\<lparr>localStorage := st\<rparr>) of
                  None \<Rightarrow> Inr (w\<lparr>localStorage := st\<rparr>)
                | Some f \<Rightarrow> call_gtag a (w\<lparr>localStorage := st\<rparr>))
          else Inr (w\<lparr>localStorage := st\<rparr>))
         = Inr (if consentMode p
                then (case gtag (w\<lparr>localStorage := st\<rparr>) of
                        None \<Rightarrow> w\<lparr>localStorage := st\<rparr>
                      | Some f \<Rightarrow> gtag_called a (w\<lparr>localStorage := st\<rparr>))
                else w\<lparr>localStorage := st\<rparr>)"
proof (cases "consentMode p \<and> gtag w \<noteq> None")
  case False
  then show ?thesis by auto
next
  case True
  then have "window_ok (w\<lparr>localStorage := st\<rparr>)"
    using assms by (auto simp add: window_ok_def gtag_throws_def)
  with True show ?thesis by (auto simp add: call_gtag_returns)
qed

lemma handleConsent_decompose:
  assumes "\<not> gtag_throws p w"
  shows "handleConsent p level snap (c, w)
     = (case listeners p snap
               (c\<lparr>consent := Some (level_string level), isVisible := False\<rparr>,
                dispatchEvent (before_dispatch p level w)) of
          (c2, w4) \<Rightarrow> (c2\<lparr>timers := timers c2 @ [level]\<rparr>, w4))"
  unfolding handleConsent_def before_dispatch_def Let_def
  by (simp add: decision_call [OF assms])

lemma handleConsent_aborted:
  assumes "gtag_throws p w"
  shows "handleConsent p level snap (c, w)
     = (c\<lparr>consent := Some (level_string level), isVisible := False\<rparr>,
        uncaught TypeError (w\<lparr>localStorage := store_consent level (clock w) (localStorage w)\<rparr>))"
  using assms by (simp add: handleConsent_def Let_def gtag_throws_def call_gtag_def)

lemma sync_handler_world:
  "snd (sync_handler p snap (c, w))
     = w\<lparr>localStorage := snd (getStoredConsent (expiryDays p) (clock w) (localStorage w))\<rparr>"
  by (simp add: sync_handler_def Let_def split: prod.splits)

lemma sync_handler_component:
  "fst (sync_handler p snap (c, w))
     = (let stored = fst (getStoredConsent (expiryDays p) (clock w) (localStorage w));
            c1 = c\<lparr>consent := stored\<rparr>
        in if \<not> truthy stored \<and> \<not> showBanner snap
           then c1\<lparr>isVisible := False, showBanner := True\<rparr> else c1)"
  by (simp add: sync_handler_def Let_def split: prod.splits)

lemma listeners_world:
  "snd (listeners p snap (c, w))
     = (if mounted snap
        then w\<lparr>localStorage := snd (getStoredConsent (expiryDays p) (clock w) (localStorage w))\<rparr>
        else w)"
  by (simp add: listeners_def sync_handler_world)

lemma listeners_consent:
  "consent (fst (listeners p snap (c, w)))
     = (if mounted snap then fst (getStoredConsent (expiryDays p) (clock w) (localStorage w))
        else consent c)"
  by (simp add: listeners_def sync_handler_component Let_def)

lemma listeners_refs [simp]:
  "scriptsInjectedRef (fst (listeners p snap (c, w))) = scriptsInjectedRef c"
  "consentModeInitRef (fst (listeners p snap (c, w))) = consentModeInitRef c"
  "mounted (fst (listeners p snap (c, w))) = mounted c"
  "timers (fst (listeners p snap (c, w))) = timers c"
  by (simp_all add: listeners_def sync_handler_component Let_def)

lemma handleConsent_world:
  assumes "\<not> gtag_throws p w"
  shows "snd (handleConsent p level snap (c, w))
     = snd (listeners p snap
              (c\<lparr>consent := Some (level_string level), isVisible := False\<rparr>,
               dispatchEvent (before_dispatch p level w)))"
  by (simp add: handleConsent_decompose [OF assms] split: prod.splits)

lemma handleConsent_component:
  assumes "\<not> gtag_throws p w"
  shows "fst (handleConsent p level snap (c, w))
     = (fst (listeners p snap
              (c\<lparr>consent := Some (level_string level), isVisible := False\<rparr>,
               dispatchEvent (before_dispatch p level w))))
       \<lparr>timers := timers c @ [level]\<rparr>"
proof -
  obtain c2 w4 where l: "listeners p snap
              (c\<lparr>consent := Some (level_string level), isVisible := False\<rparr>,
               dispatchEvent (before_dispatch p level w)) = (c2, w4)"
    by (cases "listeners p snap
              (c\<lparr>consent := Some (level_string level), isVisible := False\<rparr>,
               dispatchEvent (before_dispatch p level w))")
  have "timers c2 = timers c"
    using listeners_refs(4) [of p snap "c\<lparr>consent := Some (level_string level), isVisible := False\<rparr>"
      "dispatchEvent (before_dispatch p level w)"] l by simp
  then show ?thesis by (simp add: handleConsent_decompose [OF assms] l)
qed

lemma handleReconsent_world:
  "snd (handleReconsent p snap (c, w))
     = snd (listeners p snap
              (c\<lparr>consent := None, isVisible := False, showBanner := True,
                 scriptsInjectedRef := False\<rparr>,
               dispatchEvent (w\<lparr>localStorage := clear_consent (localStorage w)\<rparr>)))"
  by (simp add: handleReconsent_def Let_def)

subsection \<open>Writing a level\<close>




subsection \<open>The invariant of the stored record\<close>




subsection \<open>Effects and commits\<close>

lemma injections_append [simp]: "injections (a @ b) = injections a + injections b"
  by (simp add: injections_def)

lemma injections_simps [simp]:
  "injections [] = 0"
  "injections [Gtag a] = 0"
  "injections [Callback l] = 0"
  "injections [Dispatched] = 0"
  "injections [Reloaded] = 0"
  "injections [Injected m] = 1"
  by (simp_all add: injections_def)

lemma gtag_calls_append [simp]: "gtag_calls (a @ b) = gtag_calls a @ gtag_calls b"
  by (induction a rule: gtag_calls.induct) simp_all

lemma default_signals_append [simp]:
  "default_signals (a @ b) = default_signals a + default_signals b"
  by (simp add: default_signals_def)

lemma effect_init_result:
  "effect_init p (c, w)
     = (let stored = fst (getStoredConsent (expiryDays p) (clock w) (localStorage w));
            c1 = c\<lparr>mounted := True, consent := stored\<rparr>
        in (if \<not> truthy stored then c1\<lparr>showBanner := True\<rparr> else c1,
            w\<lparr>localStorage := snd (getStoredConsent (expiryDays p) (clock w) (localStorage w))\<rparr>))"
  by (simp add: effect_init_def Let_def split: prod.splits)

lemma calls_on_ready_page:
  assumes "gtag v \<noteq> None" and "window_ok v"
  shows "(case call_gtag d v of
            Inl e \<Rightarrow> (c1, uncaught e v)
          | Inr w3 \<Rightarrow>
              (case (if A then call_gtag s1 w3 else Inr w3) of
                 Inl e \<Rightarrow> (c1, uncaught e w3)
               | Inr w4 \<Rightarrow>
                   (case (if B then call_gtag s2 w4 else Inr w4) of
                      Inl e \<Rightarrow> (c1, uncaught e w4)
                    | Inr w5 \<Rightarrow>
                        (case (if C then call_gtag u w5 else Inr w5) of
                           Inl e \<Rightarrow> (c1, uncaught e w5)
                         | Inr w6 \<Rightarrow> (c1, w6)))))
         = (c1, let w3 = gtag_called d v;
                    w4 = (if A then gtag_called s1 w3 else w3);
                    w5 = (if B then gtag_called s2 w4 else w4)
                in if C then gtag_called u w5 else w5)"
  using assms by (simp add: call_gtag_returns Let_def)

text \<open>
  The consent-mode effect makes its calls on a page where it has just made sure that
  \<open>dataLayer\<close> and \<open>gtag\<close> are there: none of them throws.
\<close>

lemma effect_consent_mode_eq:
  "effect_consent_mode p snap (c, w)
     = (if \<not> consentMode p \<or> \<not> mounted snap then (c, w)
        else
          let w1 = w\<lparr>dataLayer := (case dataLayer w of None \<Rightarrow> Some [] | Some l \<Rightarrow> Some l)\<rparr>;
              w2 = (if gtag w1 = None then w1\<lparr>gtag := Some Component_gtag\<rparr> else w1)
          in if consentModeInitRef c then (c, w2)
             else
               let c1 = c\<lparr>consentModeInitRef := True\<rparr>;
                   w3 = gtag_called [JStr ''consent'', JStr ''default'', JObj (defaultConsent p)] w2;
                   w4 = (if adsDataRedaction p
                         then gtag_called [JStr ''set'', JStr ''ads_data_redaction'', JBool True] w3
                         else w3);
                   w5 = (if urlPassthrough p
                         then gtag_called [JStr ''set'', JStr ''url_passthrough'', JBool True] w4
                         else w4);
                   w6 = (if consent snap = Some ''all''
                         then gtag_called [JStr ''consent'', JStr ''update'', tracking_payload True] w5
                         else w5)
               in (c1, w6))"
  by (cases "gtag w"; cases "dataLayer w")
    (simp_all add: effect_consent_mode_def Let_def calls_on_ready_page window_ok_def)

lemma effect_consent_mode_component:
  "fst (effect_consent_mode p snap (c, w))
     = (if consentMode p \<and> mounted snap then c\<lparr>consentModeInitRef := True\<rparr> else c)"
  by (cases c) (simp add: effect_consent_mode_eq Let_def)

lemma effect_consent_mode_idle:
  "\<not> consentMode p \<or> \<not> mounted snap \<Longrightarrow> effect_consent_mode p snap (c, w) = (c, w)"
  by (auto simp add: effect_consent_mode_eq)

lemma effect_consent_mode_fields [simp]:
  "localStorage (snd (effect_consent_mode p snap (c, w))) = localStorage w"
  "clock (snd (effect_consent_mode p snap (c, w))) = clock w"
  "head (snd (effect_consent_mode p snap (c, w))) = head w"
  "querySelectorAll_script (snd (effect_consent_mode p snap (c, w))) = querySelectorAll_script w"
  by (simp_all add: effect_consent_mode_eq Let_def)

lemma effect_consent_mode_gtag:
  "gtag (snd (effect_consent_mode p snap (c, w)))
     = (if consentMode p \<and> mounted snap
        then Some (case gtag w of None \<Rightarrow> Component_gtag | Some f \<Rightarrow> f) else gtag w)"
  by (simp add: effect_consent_mode_eq Let_def split: option.splits)

lemma effect_consent_mode_trace_again:
  "consentModeInitRef c \<Longrightarrow> trace (snd (effect_consent_mode p snap (c, w))) = trace w"
  by (simp add: effect_consent_mode_eq Let_def)

lemma gtag_called_trace_map:
  "gtag w \<noteq> None \<Longrightarrow> gtag_calls (trace (gtag_called a w)) = gtag_calls (trace w) @ [a]"
  by (simp add: gtag_called_trace)

lemma effect_consent_mode_trace_first:
  assumes "consentMode p" and "mounted snap" and "\<not> consentModeInitRef c"
  shows "trace (snd (effect_consent_mode p snap (c, w)))
           = trace w @ map Gtag (signals_on_mount p (consent snap))"
  using assms
  by (simp add: effect_consent_mode_eq Let_def signals_on_mount_def gtag_called_trace)

lemma effect_consent_mode_injections [simp]:
  "injections (trace (snd (effect_consent_mode p snap (c, w)))) = injections (trace w)"
proof (cases "consentMode p \<and> mounted snap \<and> \<not> consentModeInitRef c")
  case True
  have "injections (map Gtag xs) = 0" for xs
    by (induction xs) (simp_all add: injections_def)
  then show ?thesis using True by (simp add: effect_consent_mode_trace_first)
next
  case False
  then show ?thesis
    by (auto simp add: effect_consent_mode_idle effect_consent_mode_trace_again)
qed

lemma effect_scripts_component:
  "fst (effect_scripts p snap (c, w))
     = (if scripts p = [] \<or> consent snap \<noteq> Some ''all'' \<or> \<not> mounted snap \<or> scriptsInjectedRef c
        then c else c\<lparr>scriptsInjectedRef := True\<rparr>)"
  by (simp add: effect_scripts_def)

lemma effect_scripts_trace:
  "trace (snd (effect_scripts p snap (c, w)))
     = (if scripts p = [] \<or> consent snap \<noteq> Some ''all'' \<or> \<not> mounted snap \<or> scriptsInjectedRef c
        then trace w else trace w @ [Injected (scripts p)])"
  by (simp add: effect_scripts_def)

lemma effect_scripts_fields [simp]:
  "localStorage (snd (effect_scripts p snap (c, w))) = localStorage w"
  "clock (snd (effect_scripts p snap (c, w))) = clock w"
  "gtag (snd (effect_scripts p snap (c, w))) = gtag w"
  "dataLayer (snd (effect_scripts p snap (c, w))) = dataLayer w"
  by (simp_all add: effect_scripts_def)

lemma commit_rerender:
  "commit p (Some q) snap (c, w)
     = (if deps_changed (Some q) snap
        then effect_scripts p snap (effect_consent_mode p snap (c, w)) else (c, w))"
  by (simp add: commit_def Let_def)

lemma commit_first:
  "commit p None snap (c, w)
     = effect_scripts p snap (effect_consent_mode p snap (effect_init p (c, w)))"
  by (simp add: commit_def Let_def deps_changed_def)

lemma effects_budget:
  "injections (trace (snd (effect_scripts p snap (effect_consent_mode p snap (c, w)))))
     + budget (fst (effect_scripts p snap (effect_consent_mode p snap (c, w))))
   = injections (trace w) + budget c"
proof -
  obtain c1 w1 where e: "effect_consent_mode p snap (c, w) = (c1, w1)"
    by (cases "effect_consent_mode p snap (c, w)")
  have "scriptsInjectedRef c1 = scriptsInjectedRef c"
    using effect_consent_mode_component [of p snap c w] e by (simp split: if_splits)
  moreover have "injections (trace w1) = injections (trace w)"
    using effect_consent_mode_injections [of p snap c w] e by simp
  ultimately show ?thesis
    by (simp add: e effect_scripts_component effect_scripts_trace budget_def)
qed

lemma effects_state:
  "consent (fst (effect_scripts p snap (effect_consent_mode p snap (c, w)))) = consent c"
  "mounted (fst (effect_scripts p snap (effect_consent_mode p snap (c, w)))) = mounted c"
  "showBanner (fst (effect_scripts p snap (effect_consent_mode p snap (c, w)))) = showBanner c"
  "isVisible (fst (effect_scripts p snap (effect_consent_mode p snap (c, w)))) = isVisible c"
  "timers (fst (effect_scripts p snap (effect_consent_mode p snap (c, w)))) = timers c"
  "consentModeInitRef (fst (effect_scripts p snap (effect_consent_mode p snap (c, w))))
     = (consentModeInitRef c \<or> (consentMode p \<and> mounted snap))"
  "scriptsInjectedRef (fst (effect_scripts p snap (effect_consent_mode p snap (c, w))))
     = (scriptsInjectedRef c
        \<or> (scripts p \<noteq> [] \<and> consent snap = Some ''all'' \<and> mounted snap))"
proof -
  obtain c1 w1 where e: "effect_consent_mode p snap (c, w) = (c1, w1)"
    by (cases "effect_consent_mode p snap (c, w)")
  have c1: "c1 = (if consentMode p \<and> mounted snap then c\<lparr>consentModeInitRef := True\<rparr> else c)"
    using effect_consent_mode_component [of p snap c w] e by simp
  show "consent (fst (effect_scripts p snap (effect_consent_mode p snap (c, w)))) = consent c"
    "mounted (fst (effect_scripts p snap (effect_consent_mode p snap (c, w)))) = mounted c"
    "showBanner (fst (effect_scripts p snap (effect_consent_mode p snap (c, w)))) = showBanner c"
    "isVisible (fst (effect_scripts p snap (effect_consent_mode p snap (c, w)))) = isVisible c"
    "timers (fst (effect_scripts p snap (effect_consent_mode p snap (c, w)))) = timers c"
    "consentModeInitRef (fst (effect_scripts p snap (effect_consent_mode p snap (c, w))))
       = (consentModeInitRef c \<or> (consentMode p \<and> mounted snap))"
    "scriptsInjectedRef (fst (effect_scripts p snap (effect_consent_mode p snap (c, w))))
       = (scriptsInjectedRef c
          \<or> (scripts p \<noteq> [] \<and> consent snap = Some ''all'' \<and> mounted snap))"
    by (auto simp add: e effect_scripts_component c1)
qed

lemma effects_trace:
  "trace (snd (effect_scripts p snap (effect_consent_mode p snap (c, w))))
     = trace w
       @ (if consentMode p \<and> mounted snap \<and> \<not> consentModeInitRef c
          then map Gtag (signals_on_mount p (consent snap)) else [])
       @ (if scripts p \<noteq> [] \<and> consent snap = Some ''all'' \<and> mounted snap
             \<and> \<not> scriptsInjectedRef c
          then [Injected (scripts p)] else [])"
proof -
  obtain c1 w1 where e: "effect_consent_mode p snap (c, w) = (c1, w1)"
    by (cases "effect_consent_mode p snap (c, w)")
  have r: "scriptsInjectedRef c1 = scriptsInjectedRef c"
    using effect_consent_mode_component [of p snap c w] e by (simp split: if_splits)
  have t: "trace w1 = trace w
       @ (if consentMode p \<and> mounted snap \<and> \<not> consentModeInitRef c
          then map Gtag (signals_on_mount p (consent snap)) else [])"
  proof (cases "consentMode p \<and> mounted snap \<and> \<not> consentModeInitRef c")
    case True
    then show ?thesis using effect_consent_mode_trace_first [of p snap c w] e by simp
  next
    case False
    then have "trace (snd (effect_consent_mode p snap (c, w))) = trace w"
      by (auto simp add: effect_consent_mode_idle effect_consent_mode_trace_again)
    then show ?thesis using False e by auto
  qed
  show ?thesis by (simp add: e effect_scripts_trace r t)
qed

lemma effects_window:
  "gtag (snd (effect_scripts p snap (effect_consent_mode p snap (c, w))))
     = (if consentMode p \<and> mounted snap
        then Some (case gtag w of None \<Rightarrow> Component_gtag | Some f \<Rightarrow> f) else gtag w)"
  "localStorage (snd (effect_scripts p snap (effect_consent_mode p snap (c, w)))) = localStorage w"
  "clock (snd (effect_scripts p snap (effect_consent_mode p snap (c, w)))) = clock w"
proof -
  obtain c1 w1 where e: "effect_consent_mode p snap (c, w) = (c1, w1)"
    by (cases "effect_consent_mode p snap (c, w)")
  show "gtag (snd (effect_scripts p snap (effect_consent_mode p snap (c, w))))
     = (if consentMode p \<and> mounted snap
        then Some (case gtag w of None \<Rightarrow> Component_gtag | Some f \<Rightarrow> f) else gtag w)"
    using effect_consent_mode_gtag [of p snap c w] by (simp add: e)
  show "localStorage (snd (effect_scripts p snap (effect_consent_mode p snap (c, w)))) = localStorage w"
    using effect_consent_mode_fields(1) [of p snap c w] by (simp add: e)
  show "clock (snd (effect_scripts p snap (effect_consent_mode p snap (c, w)))) = clock w"
    using effect_consent_mode_fields(2) [of p snap c w] by (simp add: e)
qed

lemma commit_rerender_budget:
  "injections (trace (snd (commit p (Some q) snap cw)))
     + budget (fst (commit p (Some q) snap cw))
   = injections (trace (snd cw)) + budget (fst cw)"
  by (cases cw) (simp add: commit_rerender effects_budget)

lemma commit_rerender_state [simp]:
  "consent (fst (commit p (Some q) snap cw)) = consent (fst cw)"
  "mounted (fst (commit p (Some q) snap cw)) = mounted (fst cw)"
  "showBanner (fst (commit p (Some q) snap cw)) = showBanner (fst cw)"
  "isVisible (fst (commit p (Some q) snap cw)) = isVisible (fst cw)"
  "timers (fst (commit p (Some q) snap cw)) = timers (fst cw)"
  by (cases cw, simp add: commit_rerender effects_state)+

lemma commit_rerender_window [simp]:
  "localStorage (snd (commit p (Some q) snap cw)) = localStorage (snd cw)"
  "clock (snd (commit p (Some q) snap cw)) = clock (snd cw)"
  by (cases cw, simp add: commit_rerender effects_window)+

lemma commit_rerender_injects:
  assumes "injections (trace (snd (commit p (Some q) snap cw))) \<noteq> injections (trace (snd cw))"
  shows "consent snap = Some ''all'' \<and> mounted snap \<and> scripts p \<noteq> []
       \<and> \<not> scriptsInjectedRef (fst cw)"
proof -
  have inj0: "injections (map Gtag xs) = 0" for xs
    by (induction xs) (simp_all add: injections_def)
  obtain c w where cw: "cw = (c, w)" by (cases cw)
  show ?thesis
    using assms by (simp add: cw commit_rerender effects_trace inj0 split: if_splits)
qed

lemma commit_rerender_init:
  assumes "consentModeInitRef (fst cw)"
  shows "consentModeInitRef (fst (commit p (Some q) snap cw))"
    and "gtag_calls (trace (snd (commit p (Some q) snap cw))) = gtag_calls (trace (snd cw))"
    and "default_signals (trace (snd (commit p (Some q) snap cw))) = default_signals (trace (snd cw))"
  using assms
  by (cases cw, simp add: commit_rerender effects_state effects_trace default_signals_def)+

subsection \<open>Events, steps and executions\<close>

lemma listeners_trace [simp]: "trace (snd (listeners p snap (c, w))) = trace w"
  by (simp add: listeners_world)

lemma listeners_window [simp]:
  "gtag (snd (listeners p snap (c, w))) = gtag w"
  "dataLayer (snd (listeners p snap (c, w))) = dataLayer w"
  "clock (snd (listeners p snap (c, w))) = clock w"
  by (simp_all add: listeners_world)

lemma handleConsent_refs [simp]:
  "scriptsInjectedRef (fst (handleConsent p level snap (c, w))) = scriptsInjectedRef c"
  "consentModeInitRef (fst (handleConsent p level snap (c, w))) = consentModeInitRef c"
  "mounted (fst (handleConsent p level snap (c, w))) = mounted c"
  by (cases "gtag_throws p w", simp add: handleConsent_aborted, simp add: handleConsent_component)+

lemma handleConsent_trace:
  assumes "\<not> gtag_throws p w"
  shows "trace (snd (handleConsent p level snap (c, w)))
     = trace w
       @ (if consentMode p \<and> gtag w \<noteq> None
          then [Gtag [JStr ''consent'', JStr ''update'', tracking_payload (level = All)]] else [])
       @ (if onConsent p then [Callback level] else [])
       @ [Dispatched]"
  by (simp add: handleConsent_world [OF assms] before_dispatch_trace)

lemma handleConsent_counts [simp]:
  "injections (trace (snd (handleConsent p level snap (c, w)))) = injections (trace w)"
  "default_signals (trace (snd (handleConsent p level snap (c, w)))) = default_signals (trace w)"
  by (cases "gtag_throws p w",
      simp add: handleConsent_aborted default_signals_def injections_def,
      simp add: handleConsent_trace default_signals_def)+

lemma handleReconsent_refs [simp]:
  "scriptsInjectedRef (fst (handleReconsent p snap (c, w))) = False"
  "consentModeInitRef (fst (handleReconsent p snap (c, w))) = consentModeInitRef c"
  "mounted (fst (handleReconsent p snap (c, w))) = mounted c"
  by (simp_all add: handleReconsent_def Let_def)

lemma handleReconsent_trace [simp]:
  "trace (snd (handleReconsent p snap (c, w))) = trace w @ [Dispatched]"
  by (simp add: handleReconsent_world)

lemma exit_timer_fields [simp]:
  "scriptsInjectedRef (fst (exit_timer p (c, w))) = scriptsInjectedRef c"
  "consentModeInitRef (fst (exit_timer p (c, w))) = consentModeInitRef c"
  "mounted (fst (exit_timer p (c, w))) = mounted c"
  "injections (trace (snd (exit_timer p (c, w)))) = injections (trace w)"
  "gtag_calls (trace (snd (exit_timer p (c, w)))) = gtag_calls (trace w)"
  by (simp_all add: exit_timer_def split: list.splits)

lemma hook_trace [simp]:
  "trace (setConsent level w) = trace w @ [Dispatched]"
  "trace (resetConsent w) = trace w @ [Dispatched]"
  by (simp_all add: setConsent_def resetConsent_def)

lemma handle_injections:
  "injections (trace (snd (handle p ev (c, w)))) = injections (trace w)"
  by (cases ev) (simp_all add: handle_def)

lemma handle_guard:
  "ev \<noteq> Reconsent \<Longrightarrow> scriptsInjectedRef (fst (handle p ev (c, w))) = scriptsInjectedRef c"
  by (cases ev) (simp_all add: handle_def effect_consent_mode_component)

lemma handle_init_ref:
  "consentModeInitRef c \<Longrightarrow> consentModeInitRef (fst (handle p ev (c, w)))"
  by (cases ev) (simp_all add: handle_def effect_consent_mode_component)

lemma handle_default_signals:
  "consentModeInitRef c \<Longrightarrow>
   default_signals (trace (snd (handle p ev (c, w)))) = default_signals (trace w)"
  by (cases ev)
    (simp_all add: handle_def default_signals_def [of "trace w @ u" for w u]
      default_signals_def [of "[x]" for x] exit_timer_def
      effect_consent_mode_trace_again split: list.splits)

lemma step_budget:
  assumes "ev \<noteq> Reconsent"
  shows "injections (trace (snd (step p ev (c, w)))) + budget (fst (step p ev (c, w)))
           = injections (trace w) + budget c"
  using handle_guard [OF assms, of p c w]
    commit_rerender_budget [of p c "fst (handle p ev (c, w))" "handle p ev (c, w)"]
  by (simp add: step_def handle_injections budget_def)

lemma run_budget:
  assumes "Reconsent \<notin> set evs"
  shows "injections (trace (snd (run p evs cw))) + budget (fst (run p evs cw))
           = injections (trace (snd cw)) + budget (fst cw)"
  using assms
proof (induction evs arbitrary: cw)
  case Nil
  then show ?case by simp
next
  case (Cons ev evs)
  obtain c w where cw: "cw = (c, w)" by (cases cw)
  from Cons.prems have ne: "ev \<noteq> Reconsent" and rest: "Reconsent \<notin> set evs" by auto
  show ?case
    using Cons.IH [OF rest, of "step p ev cw"] step_budget [OF ne, of p c w]
    by (simp add: cw)
qed

lemma step_injects_only_with_full_consent:
  assumes "injections (trace (snd (step p ev (c, w)))) \<noteq> injections (trace w)"
  shows "consent (fst (step p ev (c, w))) = Some ''all''
       \<and> mounted (fst (step p ev (c, w))) \<and> scripts p \<noteq> []"
proof -
  have "injections (trace (snd (commit p (Some c) (fst (handle p ev (c, w))) (handle p ev (c, w)))))
        \<noteq> injections (trace (snd (handle p ev (c, w))))"
    using assms by (simp add: step_def handle_injections)
  from commit_rerender_injects [OF this] show ?thesis
    by (simp add: step_def)
qed

lemma step_init_ref:
  assumes "consentModeInitRef c"
  shows "consentModeInitRef (fst (step p ev (c, w)))"
    and "default_signals (trace (snd (step p ev (c, w)))) = default_signals (trace w)"
proof -
  have i: "consentModeInitRef (fst (handle p ev (c, w)))"
    using assms by (simp add: handle_init_ref)
  show "consentModeInitRef (fst (step p ev (c, w)))"
    using commit_rerender_init(1) [OF i] by (simp add: step_def)
  show "default_signals (trace (snd (step p ev (c, w)))) = default_signals (trace w)"
    using commit_rerender_init(3) [OF i] assms by (simp add: step_def handle_default_signals)
qed

lemma run_init_ref:
  assumes "consentModeInitRef (fst cw)"
  shows "consentModeInitRef (fst (run p evs cw))
       \<and> default_signals (trace (snd (run p evs cw))) = default_signals (trace (snd cw))"
  using assms
proof (induction evs arbitrary: cw)
  case Nil
  then show ?case by simp
next
  case (Cons ev evs)
  obtain c w where cw: "cw = (c, w)" by (cases cw)
  have i: "consentModeInitRef c" using Cons.prems cw by simp
  show ?case
    using Cons.IH [of "step p ev cw"] step_init_ref [OF i, of p ev w]
    by (simp add: cw)
qed

lemma listeners_banner:
  "showBanner c \<Longrightarrow> showBanner (fst (listeners p snap (c, w)))"
  by (simp add: listeners_def sync_handler_component Let_def)

lemma handleReconsent_banner [simp]: "showBanner (fst (handleReconsent p snap (c, w)))"
  by (simp add: handleReconsent_def Let_def listeners_banner)

lemma handleReconsent_window [simp]:
  "gtag (snd (handleReconsent p snap (c, w))) = gtag w"
  "dataLayer (snd (handleReconsent p snap (c, w))) = dataLayer w"
  by (simp_all add: handleReconsent_world)

lemma handleConsent_gtag [simp]: "gtag (snd (handleConsent p level snap (c, w))) = gtag w"
  by (cases "gtag_throws p w") (simp_all add: handleConsent_aborted handleConsent_world)

lemma commit_rerender_gtag_kept:
  assumes "gtag (snd cw) \<noteq> None"
  shows "gtag (snd (commit p (Some q) snap cw)) = gtag (snd cw)"
  using assms by (cases cw) (auto simp add: commit_rerender effects_window)

subsection \<open>Mounting\<close>

lemma first_commit:
  "commit p None initial_component (initial_component, w)
     = (mounted_component (fst (getStoredConsent (expiryDays p) (clock w) (localStorage w))),
        w\<lparr>localStorage := snd (getStoredConsent (expiryDays p) (clock w) (localStorage w))\<rparr>)"
proof -
  have idle: "effect_scripts p initial_component (effect_consent_mode p initial_component cw) = cw" for cw
    by (cases cw) (simp add: effect_consent_mode_eq effect_scripts_def initial_component_def)
  show ?thesis
    by (simp add: commit_first idle effect_init_result Let_def mounted_component_def)
qed

lemma mount_unfold:
  "mount p w
     = effect_scripts p (mounted_component (fst (getStoredConsent (expiryDays p) (clock w) (localStorage w))))
         (effect_consent_mode p (mounted_component (fst (getStoredConsent (expiryDays p) (clock w) (localStorage w))))
            (mounted_component (fst (getStoredConsent (expiryDays p) (clock w) (localStorage w))),
             w\<lparr>localStorage := snd (getStoredConsent (expiryDays p) (clock w) (localStorage w))\<rparr>))"
proof -
  have d: "deps_changed (Some initial_component) (mounted_component stored)" for stored
    by (simp add: deps_changed_def mounted_component_def initial_component_def)
  show ?thesis
    unfolding mount_def first_commit by (simp add: commit_rerender d)
qed

lemma mounted_component_fields [simp]:
  "mounted (mounted_component stored)"
  "consent (mounted_component stored) = stored"
  "\<not> scriptsInjectedRef (mounted_component stored)"
  "\<not> consentModeInitRef (mounted_component stored)"
  "showBanner (mounted_component stored) = (\<not> truthy stored)"
  by (simp_all add: mounted_component_def initial_component_def)

lemma mount_trace:
  "trace (snd (mount p w))
     = trace w
       @ (if consentMode p
          then map Gtag (signals_on_mount p
                 (fst (getStoredConsent (expiryDays p) (clock w) (localStorage w))))
          else [])
       @ (if scripts p \<noteq> []
             \<and> fst (getStoredConsent (expiryDays p) (clock w) (localStorage w)) = Some ''all''
          then [Injected (scripts p)] else [])"
  by (simp add: mount_unfold effects_trace)

lemma mount_state:
  "consent (fst (mount p w)) = fst (getStoredConsent (expiryDays p) (clock w) (localStorage w))"
  "mounted (fst (mount p w))"
  "consentModeInitRef (fst (mount p w)) = consentMode p"
  "scriptsInjectedRef (fst (mount p w))
     = (scripts p \<noteq> []
        \<and> fst (getStoredConsent (expiryDays p) (clock w) (localStorage w)) = Some ''all'')"
  by (simp_all add: mount_unfold effects_state)

lemma mount_settled:
  "commit p (Some (fst (mount p w))) (fst (mount p w)) (mount p w) = mount p w"
  by (cases "mount p w") (simp add: commit_rerender deps_changed_def)

lemma mount_head:
  "head (snd (mount p w))
     = head w
       @ (if scripts p \<noteq> []
             \<and> fst (getStoredConsent (expiryDays p) (clock w) (localStorage w)) = Some ''all''
          then map rebuild_script (querySelectorAll_script w (scripts p)) else [])"
proof -
  let ?held = "fst (getStoredConsent (expiryDays p) (clock w) (localStorage w))"
  let ?w1 = "w\<lparr>localStorage := snd (getStoredConsent (expiryDays p) (clock w) (localStorage w))\<rparr>"
  obtain c1 w1 where e: "effect_consent_mode p (mounted_component ?held) (mounted_component ?held, ?w1) = (c1, w1)"
    by (cases "effect_consent_mode p (mounted_component ?held) (mounted_component ?held, ?w1)")
  have r: "scriptsInjectedRef c1 = False"
    using effect_consent_mode_component [of p "mounted_component ?held" "mounted_component ?held" ?w1] e
    by (simp split: if_splits)
  have h: "head w1 = head w" "querySelectorAll_script w1 = querySelectorAll_script w"
    using effect_consent_mode_fields(3,4) [of p "mounted_component ?held" "mounted_component ?held" ?w1] e
    by simp_all
  show ?thesis
    by (simp add: mount_unfold e effect_scripts_def r h)
qed

subsection \<open>The page stays well formed\<close>

text \<open>
  From a page on which \<open>window_ok\<close> holds, mounting the component and every step of
  an execution lead to pages on which it holds.
\<close>

lemma window_ok_transfer:
  assumes "window_ok w" and "gtag w' = gtag w" and "dataLayer w \<noteq> None \<longrightarrow> dataLayer w' \<noteq> None"
  shows "window_ok w'"
  using assms by (auto simp add: window_ok_def)

lemma gtag_called_queue_kept: "dataLayer w \<noteq> None \<Longrightarrow> dataLayer (gtag_called a w) \<noteq> None"
  by (auto simp add: gtag_called_dataLayer)

lemma before_dispatch_queue_kept:
  "dataLayer w \<noteq> None \<Longrightarrow> dataLayer (before_dispatch p level w) \<noteq> None"
  by (auto simp add: before_dispatch_def Let_def gtag_called_dataLayer split: option.splits)

lemma effect_consent_mode_window_ok:
  assumes "window_ok w"
  shows "window_ok (snd (effect_consent_mode p snap (c, w)))"
proof (cases "consentMode p \<and> mounted snap")
  case False
  then show ?thesis using assms by (auto simp add: effect_consent_mode_idle)
next
  case True
  have "dataLayer (snd (effect_consent_mode p snap (c, w))) \<noteq> None"
    using True
    by (cases "dataLayer w")
      (auto simp add: effect_consent_mode_eq Let_def gtag_called_dataLayer)
  then show ?thesis by (simp add: window_ok_def)
qed

lemma effect_scripts_window_ok:
  "window_ok (snd cw) \<Longrightarrow> window_ok (snd (effect_scripts p snap cw))"
  by (cases cw) (simp add: effect_scripts_def window_ok_def)

lemma commit_rerender_window_ok:
  assumes "window_ok (snd cw)"
  shows "window_ok (snd (commit p (Some q) snap cw))"
proof -
  obtain c w where cw: "cw = (c, w)" by (cases cw)
  show ?thesis
    using assms effect_scripts_window_ok [OF effect_consent_mode_window_ok, of w p snap p snap c]
    by (simp add: cw commit_rerender)
qed

lemma handle_window_ok:
  assumes "window_ok w"
  shows "window_ok (snd (handle p ev (c, w)))"
proof (cases ev)
  case (Decide level)
  have "window_ok (snd (handleConsent p level c (c, w)))"
    by (rule window_ok_transfer [OF assms])
      (simp_all add: handleConsent_world [OF window_ok_no_throw [OF assms]]
        before_dispatch_queue_kept)
  then show ?thesis using Decide assms by (simp add: handle_def)
next
  case Reconsent
  have "window_ok (snd (handleReconsent p c (c, w)))"
    by (rule window_ok_transfer [OF assms]) simp_all
  then show ?thesis using Reconsent assms by (simp add: handle_def)
next
  case Parent_render
  then show ?thesis using effect_consent_mode_window_ok [OF assms] by (simp add: handle_def)
next
  case Exit_timer
  then show ?thesis
    using assms by (simp add: handle_def exit_timer_def window_ok_def split: list.splits)
qed (use assms in \<open>simp_all add: handle_def window_ok_def listeners_world setConsent_def resetConsent_def dispatchEvent_def\<close>)

lemma step_window_ok:
  assumes "window_ok (snd cw)"
  shows "window_ok (snd (step p ev cw))"
proof -
  obtain c w where cw: "cw = (c, w)" by (cases cw)
  have "window_ok (snd (handle p ev (c, w)))"
    using assms by (simp add: cw handle_window_ok)
  from commit_rerender_window_ok [OF this] show ?thesis
    by (simp add: cw step_def)
qed

lemma mount_window_ok:
  assumes "window_ok w"
  shows "window_ok (snd (mount p w))"
proof -
  have "window_ok (w\<lparr>localStorage := st\<rparr>)" for st
    using assms by (simp add: window_ok_def)
  then show ?thesis
    using effect_scripts_window_ok [OF effect_consent_mode_window_ok]
    by (simp add: mount_unfold)
qed

lemma run_window_ok:
  assumes "window_ok (snd cw)"
  shows "window_ok (snd (run p evs cw))"
  using assms
proof (induction evs arbitrary: cw)
  case Nil
  then show ?case by simp
next
  case (Cons ev evs)
  then show ?case using step_window_ok [of cw p ev] by simp
qed

subsection \<open>The update signal of a decision\<close>



subsection \<open>A decision when the storage write throws\<close>




subsection \<open>Script injection\<close>

lemma run_append: "run p (evs1 @ evs2) cw = run p evs2 (run p evs1 cw)"
  by (induction evs1 arbitrary: cw) simp_all

lemma injections_signals [simp]: "injections (map Gtag xs) = 0"
  by (induction xs) (simp_all add: injections_def)

lemma mount_budget:
  "injections (trace (snd (mount p w))) + budget (fst (mount p w)) = injections (trace w) + 1"
  by (simp add: mount_trace mount_state budget_def)

lemma step_guard:
  assumes "ev \<noteq> Reconsent" and "scriptsInjectedRef (fst cw)"
  shows "scriptsInjectedRef (fst (step p ev cw))"
proof -
  obtain c w where cw: "cw = (c, w)" by (cases cw)
  have "scriptsInjectedRef (fst (handle p ev (c, w)))"
    using assms handle_guard [OF assms(1), of p c w] by (simp add: cw)
  then show ?thesis
    by (cases "handle p ev (c, w)") (simp add: cw step_def commit_rerender effects_state)
qed

lemma run_guard:
  assumes "Reconsent \<notin> set evs" and "scriptsInjectedRef (fst cw)"
  shows "scriptsInjectedRef (fst (run p evs cw))"
  using assms
proof (induction evs arbitrary: cw)
  case Nil
  then show ?case by simp
next
  case (Cons ev evs)
  from Cons.prems have ne: "ev \<noteq> Reconsent" and rest: "Reconsent \<notin> set evs" by auto
  have "scriptsInjectedRef (fst (step p ev cw))"
    by (rule step_guard [OF ne Cons.prems(2)])
  then show ?case using Cons.IH [OF rest] by simp
qed

text \<open>
  C2. In every execution of the component, over any stretch of events without the
  reconsent action (after any events \<open>before\<close>, or from the mount on), the markup is
  injected at most once, and not at all once the guard is set, which then stays set. A
  step or the mount injects only when the consent it renders is \<open>all\<close> (and the component
  is mounted and the markup is not empty). No event other than the reconsent action
  clears the guard.
\<close>

theorem scripts_injected_once_between_resets:
  "(Reconsent \<notin> set evs \<longrightarrow>
      injections (trace (snd (run p (before @ evs) cw)))
        \<le> injections (trace (snd (run p before cw))) + 1
      \<and> (scriptsInjectedRef (fst (run p before cw)) \<longrightarrow>
           injections (trace (snd (run p (before @ evs) cw)))
             = injections (trace (snd (run p before cw)))
           \<and> scriptsInjectedRef (fst (run p (before @ evs) cw))))
   \<and> (Reconsent \<notin> set evs \<longrightarrow>
        injections (trace (snd (run p evs (mount p w)))) \<le> injections (trace w) + 1)
   \<and> (injections (trace (snd (step p ev cw))) \<noteq> injections (trace (snd cw)) \<longrightarrow>
        consent (fst (step p ev cw)) = Some ''all'' \<and> mounted (fst (step p ev cw))
        \<and> scripts p \<noteq> [])
   \<and> (injections (trace (snd (mount p w))) \<noteq> injections (trace w) \<longrightarrow>
        consent (fst (mount p w)) = Some ''all'' \<and> scripts p \<noteq> [])
   \<and> (ev \<noteq> Reconsent \<and> scriptsInjectedRef (fst cw) \<longrightarrow>
        scriptsInjectedRef (fst (step p ev cw)))"
proof -
  have seg: "injections (trace (snd (run p (before @ evs) cw)))
        \<le> injections (trace (snd (run p before cw))) + 1
      \<and> (scriptsInjectedRef (fst (run p before cw)) \<longrightarrow>
           injections (trace (snd (run p (before @ evs) cw)))
             = injections (trace (snd (run p before cw)))
           \<and> scriptsInjectedRef (fst (run p (before @ evs) cw)))"
    if "Reconsent \<notin> set evs"
    using run_budget [OF that, of p "run p before cw"] run_guard [OF that, of "run p before cw" p]
    by (auto simp add: run_append budget_def split: if_splits)
  have mnt: "injections (trace (snd (run p evs (mount p w)))) \<le> injections (trace w) + 1"
    if "Reconsent \<notin> set evs"
    using run_budget [OF that, of p "mount p w"] mount_budget [of p w]
    by (auto simp add: budget_def split: if_splits)
  have stp: "consent (fst (step p ev cw)) = Some ''all'' \<and> mounted (fst (step p ev cw))
        \<and> scripts p \<noteq> []"
    if "injections (trace (snd (step p ev cw))) \<noteq> injections (trace (snd cw))"
    using that step_injects_only_with_full_consent [of p ev "fst cw" "snd cw"] by simp
  have mst: "consent (fst (mount p w)) = Some ''all'' \<and> scripts p \<noteq> []"
    if "injections (trace (snd (mount p w))) \<noteq> injections (trace w)"
    using that by (simp add: mount_trace mount_state split: if_splits)
  show ?thesis using seg mnt stp mst step_guard by blast
qed

text \<open>
  A returning visitor with a valid \<open>all\<close> record: the mount injects (the script
  element of the markup is rebuilt with its source and appended to the head); the events
  that follow, another acceptance among them, inject nothing more.
\<close>

lemma returning_read:
  "getStoredConsent 365 1700864000000 store_valid = (Some ''all'', store_valid)"
  by (simp add: getStoredConsent_def isExpired_def getItem_def store_valid_def
      STORAGE_KEY_def STORAGE_DATE_KEY_def parse_example)

theorem scripts_injected_once_between_resets_witness:
  "Reconsent \<notin> set [Exit_timer, Decide All, Change_event]
   \<and> injections (trace (snd (run banner_props ([Decide All] @ [Exit_timer, Decide All, Change_event])
                              (prompting, fresh_world))))
       \<le> injections (trace (snd (run banner_props [Decide All] (prompting, fresh_world)))) + 1
   \<and> injections (trace (snd (run banner_props [Exit_timer, Decide All, Change_event]
                              (mount banner_props returning_world)))) \<le> 1
   \<and> injections (trace (snd (mount banner_props returning_world))) = 1
   \<and> consent (fst (mount banner_props returning_world)) = Some ''all''
   \<and> scriptsInjectedRef (fst (mount banner_props returning_world))
   \<and> scriptsInjectedRef (fst (step banner_props (Decide All) (mount banner_props returning_world)))
   \<and> head (snd (mount banner_props returning_world))
       = [\<lparr>ns_src = Some ''https://example.org/t.js'', ns_textContent = [], ns_attributes = []\<rparr>]"
proof -
  have n: "Reconsent \<notin> set [Exit_timer, Decide All, Change_event]" by simp
  have hd: "head (snd (mount banner_props returning_world))
       = [\<lparr>ns_src = Some ''https://example.org/t.js'', ns_textContent = [], ns_attributes = []\<rparr>]"
    by (simp add: mount_head returning_read rebuild_script_def returning_world_def fresh_world_def
        banner_props_def)
  have e: "Decide All \<noteq> Reconsent" by simp
  have f: "expiryDays banner_props = 365" "scripts banner_props \<noteq> []" "consentMode banner_props"
    by (simp_all add: banner_props_def)
  have g: "clock returning_world = 1700864000000" "localStorage returning_world = store_valid"
    "trace returning_world = []"
    by (simp_all add: returning_world_def fresh_world_def)
  have m1: "injections (trace (snd (mount banner_props returning_world))) = 1"
    by (simp add: mount_trace f g returning_read)
  have m2: "scriptsInjectedRef (fst (mount banner_props returning_world))"
    by (simp add: mount_state f g returning_read)
  note t = scripts_injected_once_between_resets
    [of "[Exit_timer, Decide All, Change_event]" banner_props "[Decide All]" "(prompting, fresh_world)"
      returning_world "Decide All"]
  note u = scripts_injected_once_between_resets
    [of "[Exit_timer, Decide All, Change_event]" banner_props "[]" "mount banner_props returning_world"
      returning_world "Decide All"]
  from t n have r1: "injections (trace (snd (run banner_props ([Decide All] @ [Exit_timer, Decide All, Change_event])
                              (prompting, fresh_world))))
       \<le> injections (trace (snd (run banner_props [Decide All] (prompting, fresh_world)))) + 1"
    by blast
  from t n have r2: "injections (trace (snd (run banner_props [Exit_timer, Decide All, Change_event]
                              (mount banner_props returning_world)))) \<le> 1"
    by (simp add: g)
  from t have r3: "consent (fst (mount banner_props returning_world)) = Some ''all''"
    using m1 by (simp add: g)
  from u e m2 have r4: "scriptsInjectedRef (fst (step banner_props (Decide All) (mount banner_props returning_world)))"
    by blast
  show ?thesis using n r1 r2 m1 r3 m2 r4 hd by simp
qed

subsection \<open>The default signal on mount\<close>

lemma gtag_calls_signals [simp]: "gtag_calls (map Gtag xs) = xs"
  by (induction xs) simp_all

lemma gtag_calls_single [simp]:
  "gtag_calls [Injected m] = []"
  by simp

lemma default_signals_on_mount [simp]:
  "default_signals (map Gtag (signals_on_mount p held)) = 1"
  by (simp add: default_signals_def signals_on_mount_def)

lemma default_signals_single [simp]:
  "default_signals [Injected m] = 0"
  "default_signals [] = 0"
  by (simp_all add: default_signals_def)

lemma effect_consent_mode_dataLayer_first:
  assumes "consentMode p" and "mounted snap" and "\<not> consentModeInitRef c"
  shows "dataLayer (snd (effect_consent_mode p snap (c, w)))
           = Some ((case dataLayer w of None \<Rightarrow> [] | Some l \<Rightarrow> l)
                   @ (if gtag w = Some Host_gtag then []
                      else signals_on_mount p (consent snap)))"
proof (cases "gtag w")
  case None
  then show ?thesis
    using assms
    by (cases "dataLayer w")
      (simp_all add: effect_consent_mode_eq Let_def signals_on_mount_def gtag_called_dataLayer)
next
  case (Some f)
  then show ?thesis
    using assms
    by (cases f; cases "dataLayer w")
      (simp_all add: effect_consent_mode_eq Let_def signals_on_mount_def gtag_called_dataLayer)
qed

lemma mount_window:
  assumes "consentMode p"
  shows "gtag (snd (mount p w)) = Some (case gtag w of None \<Rightarrow> Component_gtag | Some f \<Rightarrow> f)"
    and "dataLayer (snd (mount p w))
           = Some ((case dataLayer w of None \<Rightarrow> [] | Some l \<Rightarrow> l)
                   @ (if gtag w = Some Host_gtag then []
                      else signals_on_mount p
                             (fst (getStoredConsent (expiryDays p) (clock w) (localStorage w)))))"
proof -
  let ?held = "fst (getStoredConsent (expiryDays p) (clock w) (localStorage w))"
  let ?w1 = "w\<lparr>localStorage := snd (getStoredConsent (expiryDays p) (clock w) (localStorage w))\<rparr>"
  show "gtag (snd (mount p w)) = Some (case gtag w of None \<Rightarrow> Component_gtag | Some f \<Rightarrow> f)"
    using assms by (simp add: mount_unfold effects_window)
  obtain c1 w1 where e: "effect_consent_mode p (mounted_component ?held) (mounted_component ?held, ?w1) = (c1, w1)"
    by (cases "effect_consent_mode p (mounted_component ?held) (mounted_component ?held, ?w1)")
  have "dataLayer w1 = Some ((case dataLayer w of None \<Rightarrow> [] | Some l \<Rightarrow> l)
                   @ (if gtag w = Some Host_gtag then [] else signals_on_mount p ?held))"
    using effect_consent_mode_dataLayer_first [of p "mounted_component ?held" "mounted_component ?held" ?w1]
      assms e by simp
  then show "dataLayer (snd (mount p w))
           = Some ((case dataLayer w of None \<Rightarrow> [] | Some l \<Rightarrow> l)
                   @ (if gtag w = Some Host_gtag then [] else signals_on_mount p ?held))"
    by (simp add: mount_unfold e)
qed

text \<open>
  C4. With the consent-mode integration enabled, mounting the component leaves
  \<open>window.dataLayer\<close> defined (an existing queue is kept and only extended) and
  \<open>window.gtag\<close> defined (an existing function is kept), and calls \<open>gtag\<close> with
  \<open>consent\<close>, \<open>default\<close> and an object in which the four tracking categories are
  \<open>denied\<close>, the three others \<open>granted\<close>, \<open>wait_for_update\<close> is the configured grace
  period and \<open>region\<close> is the configured list when one is given and not empty. The two
  optional \<open>set\<close> calls follow, and then, when the store held a valid \<open>all\<close> at the
  mount, the \<open>update\<close> call that grants the four tracking categories. Whatever happens to
  the mounted component afterwards, no second \<open>default\<close> signal is sent.
\<close>

theorem consent_mode_defaults_on_mount:
  assumes "consentMode p"
  shows "gtag_calls (trace (snd (mount p w)))
           = gtag_calls (trace w)
             @ [[JStr ''consent'', JStr ''default'', JObj (defaultConsent p)]]
             @ (if adsDataRedaction p
                then [[JStr ''set'', JStr ''ads_data_redaction'', JBool True]] else [])
             @ (if urlPassthrough p
                then [[JStr ''set'', JStr ''url_passthrough'', JBool True]] else [])
             @ (if fst (getStoredConsent (expiryDays p) (clock w) (localStorage w)) = Some ''all''
                then [[JStr ''consent'', JStr ''update'',
                       JObj [(''ad_storage'', JStr ''granted''), (''ad_user_data'', JStr ''granted''),
                             (''ad_personalization'', JStr ''granted''),
                             (''analytics_storage'', JStr ''granted'')]]]
                else [])
       \<and> map_of (defaultConsent p) ''ad_storage'' = Some (JStr ''denied'')
       \<and> map_of (defaultConsent p) ''ad_user_data'' = Some (JStr ''denied'')
       \<and> map_of (defaultConsent p) ''ad_personalization'' = Some (JStr ''denied'')
       \<and> map_of (defaultConsent p) ''analytics_storage'' = Some (JStr ''denied'')
       \<and> map_of (defaultConsent p) ''functionality_storage'' = Some (JStr ''granted'')
       \<and> map_of (defaultConsent p) ''personalization_storage'' = Some (JStr ''granted'')
       \<and> map_of (defaultConsent p) ''security_storage'' = Some (JStr ''granted'')
       \<and> map_of (defaultConsent p) ''wait_for_update'' = Some (JNum (waitForUpdate p))
       \<and> map_of (defaultConsent p) ''region''
           = (case consentModeRegion p of
                None \<Rightarrow> None
              | Some r \<Rightarrow> if r = [] then None else Some (JArr (map JStr r)))
       \<and> gtag (snd (mount p w)) = Some (case gtag w of None \<Rightarrow> Component_gtag | Some f \<Rightarrow> f)
       \<and> dataLayer (snd (mount p w)) \<noteq> None
       \<and> (gtag w = Some Host_gtag \<longrightarrow>
            dataLayer (snd (mount p w)) = Some (case dataLayer w of None \<Rightarrow> [] | Some l \<Rightarrow> l))
       \<and> (\<exists>pushed. dataLayer (snd (mount p w))
             = Some ((case dataLayer w of None \<Rightarrow> [] | Some l \<Rightarrow> l) @ pushed))
       \<and> consentModeInitRef (fst (mount p w))
       \<and> default_signals (trace (snd (run p evs (mount p w)))) = default_signals (trace w) + 1"
proof -
  let ?held = "fst (getStoredConsent (expiryDays p) (clock w) (localStorage w))"
  have calls: "gtag_calls (trace (snd (mount p w)))
      = gtag_calls (trace w) @ signals_on_mount p ?held"
    using assms by (simp add: mount_trace)
  have init: "consentModeInitRef (fst (mount p w))"
    using assms by (simp add: mount_state)
  have once: "default_signals (trace (snd (mount p w))) = default_signals (trace w) + 1"
    using assms by (simp add: mount_trace)
  have later: "default_signals (trace (snd (run p evs (mount p w)))) = default_signals (trace w) + 1"
    using run_init_ref [OF init, where p = p and evs = evs] once by simp
  have fields: "map_of (defaultConsent p) ''ad_storage'' = Some (JStr ''denied'')
       \<and> map_of (defaultConsent p) ''ad_user_data'' = Some (JStr ''denied'')
       \<and> map_of (defaultConsent p) ''ad_personalization'' = Some (JStr ''denied'')
       \<and> map_of (defaultConsent p) ''analytics_storage'' = Some (JStr ''denied'')
       \<and> map_of (defaultConsent p) ''functionality_storage'' = Some (JStr ''granted'')
       \<and> map_of (defaultConsent p) ''personalization_storage'' = Some (JStr ''granted'')
       \<and> map_of (defaultConsent p) ''security_storage'' = Some (JStr ''granted'')
       \<and> map_of (defaultConsent p) ''wait_for_update'' = Some (JNum (waitForUpdate p))"
    by (simp add: defaultConsent_def)
  have reg: "map_of (defaultConsent p) ''region''
           = (case consentModeRegion p of
                None \<Rightarrow> None
              | Some r \<Rightarrow> if r = [] then None else Some (JArr (map JStr r)))"
    by (simp add: defaultConsent_def split: option.splits)
  note win = mount_window [OF assms, of w]
  have dl: "dataLayer (snd (mount p w)) \<noteq> None"
    "gtag w = Some Host_gtag \<longrightarrow>
       dataLayer (snd (mount p w)) = Some (case dataLayer w of None \<Rightarrow> [] | Some l \<Rightarrow> l)"
    using win(2) by simp_all
  have kept: "\<exists>pushed. dataLayer (snd (mount p w))
             = Some ((case dataLayer w of None \<Rightarrow> [] | Some l \<Rightarrow> l) @ pushed)"
    using win(2) by blast
  show ?thesis
    using calls fields reg win(1) dl kept init later
    by (simp add: signals_on_mount_def tracking_payload_def Let_def)
qed

text \<open>
  The example of the specification: a record \<open>all\<close> ten days old, an expiry window of
  365 days, the integration enabled.
\<close>

theorem consent_mode_defaults_on_mount_witness:
  "consentMode banner_props
   \<and> gtag_calls (trace (snd (mount banner_props returning_world)))
       = [[JStr ''consent'', JStr ''default'',
           JObj [(''ad_storage'', JStr ''denied''), (''ad_user_data'', JStr ''denied''),
                 (''ad_personalization'', JStr ''denied''), (''analytics_storage'', JStr ''denied''),
                 (''functionality_storage'', JStr ''granted''),
                 (''personalization_storage'', JStr ''granted''),
                 (''security_storage'', JStr ''granted''), (''wait_for_update'', JNum 500)]],
          [JStr ''consent'', JStr ''update'',
           JObj [(''ad_storage'', JStr ''granted''), (''ad_user_data'', JStr ''granted''),
                 (''ad_personalization'', JStr ''granted''),
                 (''analytics_storage'', JStr ''granted'')]]]
   \<and> gtag (snd (mount banner_props returning_world)) = Some Component_gtag
   \<and> dataLayer (snd (mount banner_props returning_world)) \<noteq> None
   \<and> default_signals (trace (snd (run banner_props [Reconsent, Decide All]
                                     (mount banner_props returning_world)))) = 1"
proof -
  have a: "consentMode banner_props" by (simp add: banner_props_def)
  have f: "expiryDays banner_props = 365" "adsDataRedaction banner_props = False"
    "urlPassthrough banner_props = False"
    by (simp_all add: banner_props_def)
  have g: "clock returning_world = 1700864000000" "localStorage returning_world = store_valid"
    "trace returning_world = []" "gtag returning_world = None"
    by (simp_all add: returning_world_def fresh_world_def)
  have dc: "defaultConsent banner_props
      = [(''ad_storage'', JStr ''denied''), (''ad_user_data'', JStr ''denied''),
         (''ad_personalization'', JStr ''denied''), (''analytics_storage'', JStr ''denied''),
         (''functionality_storage'', JStr ''granted''),
         (''personalization_storage'', JStr ''granted''),
         (''security_storage'', JStr ''granted''), (''wait_for_update'', JNum 500)]"
    by (simp add: defaultConsent_def banner_props_def)
  show ?thesis
    using a consent_mode_defaults_on_mount [OF a, of returning_world "[Reconsent, Decide All]"]
    by (simp add: f g returning_read dc)
qed

subsection \<open>The region list\<close>

lemma effect_consent_mode_region:
  "effect_consent_mode (p\<lparr>consentModeRegion := Some []\<rparr>) snap cw
     = effect_consent_mode (p\<lparr>consentModeRegion := None\<rparr>) snap cw"
  by (cases cw) (simp add: effect_consent_mode_eq Let_def defaultConsent_def)

lemma effect_scripts_region:
  "effect_scripts (p\<lparr>consentModeRegion := r\<rparr>) snap cw = effect_scripts p snap cw"
  by (cases cw) (simp add: effect_scripts_def)

text \<open>
  C10. In the component's \<open>default\<close> payload and in the object the bootstrap script
  serialises, the \<open>region\<close> field is present iff a non-empty list is given. An empty
  list gives the same payload, the same script and the same behaviour at mount as no
  list.
\<close>

theorem empty_region_is_absent_region:
  "(map_of (defaultConsent p) ''region'' \<noteq> None) = (\<exists>r. consentModeRegion p = Some r \<and> r \<noteq> [])
   \<and> (map_of (defaultObj opts) ''region'' \<noteq> None) = (\<exists>r. region opts = Some r \<and> r \<noteq> [])
   \<and> defaultConsent (p\<lparr>consentModeRegion := Some []\<rparr>) = defaultConsent (p\<lparr>consentModeRegion := None\<rparr>)
   \<and> defaultObj (opts\<lparr>region := Some []\<rparr>) = defaultObj (opts\<lparr>region := None\<rparr>)
   \<and> getConsentModeScript (Some (opts\<lparr>region := Some []\<rparr>))
       = getConsentModeScript (Some (opts\<lparr>region := None\<rparr>))
   \<and> mount (p\<lparr>consentModeRegion := Some []\<rparr>) w = mount (p\<lparr>consentModeRegion := None\<rparr>) w"
proof -
  have a: "(map_of (defaultConsent p) ''region'' \<noteq> None) = (\<exists>r. consentModeRegion p = Some r \<and> r \<noteq> [])"
    by (cases "consentModeRegion p") (simp_all add: defaultConsent_def)
  have b: "(map_of (defaultObj opts) ''region'' \<noteq> None) = (\<exists>r. region opts = Some r \<and> r \<noteq> [])"
    by (cases "region opts") (simp_all add: defaultObj_def)
  have c: "defaultConsent (p\<lparr>consentModeRegion := Some []\<rparr>) = defaultConsent (p\<lparr>consentModeRegion := None\<rparr>)"
    by (simp add: defaultConsent_def)
  have d: "defaultObj (opts\<lparr>region := Some []\<rparr>) = defaultObj (opts\<lparr>region := None\<rparr>)"
    by (simp add: defaultObj_def)
  have e: "getConsentModeScript (Some (opts\<lparr>region := Some []\<rparr>))
       = getConsentModeScript (Some (opts\<lparr>region := None\<rparr>))"
    by (simp add: getConsentModeScript_def script_lines_def d setCalls_def)
  have f: "mount (p\<lparr>consentModeRegion := Some []\<rparr>) w = mount (p\<lparr>consentModeRegion := None\<rparr>) w"
    by (simp add: mount_unfold effect_consent_mode_region effect_scripts_region)
  show ?thesis using a b c d e f by simp
qed

subsection \<open>The bootstrap script\<close>

lemma toString_small: "toString 500 = ''500''" "toString 365 = ''365''"
  by (simp_all add: toString_def nat_string.simps digit_char_def)

lemma quoted_keys:
  "json_quote STORAGE_KEY = [CHR 0x22] @ ''loi25-consent'' @ [CHR 0x22]"
  "json_quote STORAGE_DATE_KEY = [CHR 0x22] @ ''loi25-consent-date'' @ [CHR 0x22]"
  by (simp_all add: STORAGE_KEY_def STORAGE_DATE_KEY_def json_quote_def json_escape_def)

lemma inline_check_iff:
  "inline_check d now st
     = (accessible st \<and> map_of (items st) STORAGE_KEY = Some ''all''
        \<and> (\<exists>t ts. map_of (items st) STORAGE_DATE_KEY = Some t \<and> parseInt t = Fin ts
              \<and> (of_int now - ts) / 86400000 \<le> of_int d))"
proof -
  have nonempty: "parseInt t = Fin ts \<Longrightarrow> t \<noteq> []" for t ts
    by (auto simp add: parseInt_def)
  show ?thesis
  proof (cases "accessible st")
    case False
    then show ?thesis by (simp add: inline_check_def getItem_def)
  next
    case True
    show ?thesis
    proof (cases "map_of (items st) STORAGE_DATE_KEY")
      case None
      then show ?thesis using True by (simp add: inline_check_def getItem_def)
    next
      case (Some t)
      show ?thesis
      proof (cases "parseInt t")
        case NaN
        then show ?thesis using True Some by (simp add: inline_check_def getItem_def)
      next
        case (Fin ts)
        then show ?thesis
          using True Some nonempty [OF Fin]
          by (cases "map_of (items st) STORAGE_KEY") (auto simp add: inline_check_def getItem_def)
      qed
    qed
  qed
qed

lemma nullish_case: "nullish x d = (case x of None \<Rightarrow> d | Some v \<Rightarrow> v)"
  by (cases x) simp_all

lemma nullish_flag: "nullish x False = (x = Some True)"
  by (cases x) simp_all


end
